theory Spec2Isabelle
  imports Main "HOL-Library.Char_ord" "HOL-Library.List_Lexorder" "HOL-Library.AList"
begin

section \<open>Errors\<close>

text \<open>
  The generator stops either through one of its own \<^verbatim>\<open>print(...); sys.exit(1)\<close>
  pairs or through an uncaught Python exception. Both are values here. The first five
  constructors are the five kinds of message of the source, under the names the
  specification gives them; the last four are the exceptions that the indexing,
  \<^verbatim>\<open>int()\<close>, the named-tuple constructor and the dictionary lookups of the source can
  raise.
\<close>

datatype error =
    NoMatchingProfile
  | UnknownKeyword string
  | ConflictingMode
  | IncompleteDefault string
  | DefaultHasPosition
  | IndexError
  | ValueError
  | TypeError
  | KeyError

section \<open>MCU resolver\<close>

text \<open>
  \<^verbatim>\<open>MCU._match_names\<close>: the loop over \<^verbatim>\<open>zip(test, x)\<close>. The second branch
  compares the whole pattern \<open>x\<close> with the one-character string, as the source does.
\<close>

definition match_names :: "string \<Rightarrow> string \<Rightarrow> int" where
  "match_names test x =
     fold (\<lambda>(tc, xc) score.
             if tc = xc then score + 1
             else if x = ''x'' then score
             else score - 1)
          (zip test x) 0"

text \<open>
  The scoring as the specification words it, for comparison: a pattern character equal
  to the placeholder contributes nothing.
\<close>

definition spec_match_score :: "string \<Rightarrow> string \<Rightarrow> int" where
  "spec_match_score test x =
     fold (\<lambda>(tc, xc) score.
             if tc = xc then score + 1
             else if xc = CHR ''x'' then score
             else score - 1)
          (zip test x) 0"

text \<open>
  \<^verbatim>\<open>sorted(xs, key=f, reverse=True)\<close>: Python reverses the list, sorts it stably in
  ascending key order and reverses the result, so that equal keys keep their order.
  \<^const>\<open>sort_key\<close> is a stable insertion sort.
\<close>

definition sorted_key_reverse :: "('a \<Rightarrow> int) \<Rightarrow> 'a list \<Rightarrow> 'a list" where
  "sorted_key_reverse f xs = rev (sort_key f (rev xs))"

text \<open>
  \<^verbatim>\<open>MCU._mcu_types\<close> over the directory listing: \<^verbatim>\<open>name[:-5]\<close> for the names with
  \<^verbatim>\<open>name[-5:] == ".yaml"\<close>.
\<close>

definition mcu_types :: "string list \<Rightarrow> string list" where
  "mcu_types listing =
     map (\<lambda>name. take (length name - 5) name)
         (filter (\<lambda>name. drop (length name - 5) name = ''.yaml'') listing)"

text \<open>\<^verbatim>\<open>os.path.join\<close> of two components on a POSIX system.\<close>

definition os_path_join :: "string \<Rightarrow> string \<Rightarrow> string" where
  "os_path_join a b =
     (if b \<noteq> [] \<and> hd b = CHR ''/'' then b
      else if a = [] \<or> last a = CHR ''/'' then a @ b
      else a @ ''/'' @ b)"

text \<open>
  \<^verbatim>\<open>MCU._choose_mcu_file\<close>. The directory of the catalog and its listing are read from
  the file system by the source; here they are arguments. \<^verbatim>\<open>rank_types[0]\<close> raises
  \<^verbatim>\<open>IndexError\<close> on an empty list.
\<close>

definition choose_mcu_file :: "string \<Rightarrow> string list \<Rightarrow> string \<Rightarrow> error + string" where
  "choose_mcu_file mcu_dir listing mcutype =
     (let types = mcu_types listing;
          rank_types = sorted_key_reverse (\<lambda>x. match_names mcutype x) types
      in case rank_types of
           [] \<Rightarrow> Inl IndexError
         | choice # _ \<Rightarrow>
             (let score = match_names mcutype choice
              in if score \<le> 0 then Inl NoMatchingProfile
                 else Inr (os_path_join mcu_dir (choice @ ''.yaml''))))"

section \<open>Strings\<close>

text \<open>
  Python strings are modelled as \<^typ>\<open>string\<close>: a character is a code point below 256.
  On these code points the functions below are the ones of Python 3 (CPython 3.11 with
  its default settings), with one exception: \<^verbatim>\<open>str.upper\<close> sends U+00B5 and U+00FF to
  code points above 255, which a \<^typ>\<open>char\<close> cannot hold, and \<open>upper\<close> leaves the two
  unchanged. Strings without these two characters are the ones of \<open>upper_in_range\<close>.

  \<^verbatim>\<open>str.upper\<close> maps \<open>a\<close> to \<open>z\<close> and the letters from U+00E0 to U+00FE (without the
  division sign U+00F7) to the code point 32 below, and U+00DF to the two letters \<open>SS\<close>;
  \<^verbatim>\<open>str.lower\<close> maps \<open>A\<close> to \<open>Z\<close> and the letters from U+00C0 to U+00DE (without the
  multiplication sign U+00D7) to the code point 32 above.
\<close>

definition upper_char :: "char \<Rightarrow> string" where
  "upper_char c =
     (let n = (of_char c :: nat) in
      if 97 \<le> n \<and> n \<le> 122 then [char_of (n - 32)]
      else if n = 223 then ''SS''
      else if 224 \<le> n \<and> n \<le> 254 \<and> n \<noteq> 247 then [char_of (n - 32)]
      else [c])"

definition lower_char :: "char \<Rightarrow> char" where
  "lower_char c =
     (let n = (of_char c :: nat) in
      if 65 \<le> n \<and> n \<le> 90 then char_of (n + 32)
      else if 192 \<le> n \<and> n \<le> 222 \<and> n \<noteq> 215 then char_of (n + 32)
      else c)"

definition upper :: "string \<Rightarrow> string" where
  "upper s = concat (map upper_char s)"

definition lower :: "string \<Rightarrow> string" where
  "lower s = map lower_char s"

definition upper_in_range :: "string \<Rightarrow> bool" where
  "upper_in_range s = (CHR 0xB5 \<notin> set s \<and> CHR 0xFF \<notin> set s)"

text \<open>The characters that \<^verbatim>\<open>str.strip\<close> removes: those with \<^verbatim>\<open>isspace()\<close>.\<close>

definition is_space :: "char \<Rightarrow> bool" where
  "is_space c = ((of_char c :: nat) \<in> set [9, 10, 11, 12, 13, 28, 29, 30, 31, 32, 133, 160])"

definition strip :: "string \<Rightarrow> string" where
  "strip s = rev (dropWhile is_space (rev (dropWhile is_space s)))"

text \<open>\<^verbatim>\<open>s.split(",")\<close>: one more piece than there are commas.\<close>

fun split_comma :: "string \<Rightarrow> string list" where
  "split_comma [] = [[]]"
| "split_comma (c # cs) =
     (if c = CHR '','' then [] # split_comma cs
      else (case split_comma cs of
              [] \<Rightarrow> [[c]]
            | w # ws \<Rightarrow> (c # w) # ws))"

text \<open>\<^verbatim>\<open>sep.join(xs)\<close>.\<close>

fun join :: "string \<Rightarrow> string list \<Rightarrow> string" where
  "join sep [] = []"
| "join sep [x] = x"
| "join sep (x # y # ys) = x @ sep @ join sep (y # ys)"

definition is_digit :: "char \<Rightarrow> bool" where
  "is_digit c = (CHR ''0'' \<le> c \<and> c \<le> CHR ''9'')"

definition digit_val :: "char \<Rightarrow> nat" where
  "digit_val c = of_char c - 48"

text \<open>
  The digits of a decimal literal after its first digit: digits, each optionally
  preceded by one underscore.
\<close>

fun int_digits :: "nat \<Rightarrow> string \<Rightarrow> nat option" where
  "int_digits acc [] = Some acc"
| "int_digits acc [c] = (if is_digit c then Some (10 * acc + digit_val c) else None)"
| "int_digits acc (c # d # ds) =
     (if is_digit c then int_digits (10 * acc + digit_val c) (d # ds)
      else if c = CHR ''_'' \<and> is_digit d then int_digits (10 * acc + digit_val d) ds
      else None)"

text \<open>
  \<^verbatim>\<open>int(s)\<close> on a string. The white space that \<^verbatim>\<open>int\<close> drops at both ends is
  narrower than that of \<^verbatim>\<open>str.strip\<close>: the separators U+001C to U+001F are not part of
  it. One sign is allowed, the rest must be a decimal literal, and a literal of more than
  4300 digits is refused. \<open>None\<close> is \<^verbatim>\<open>ValueError\<close>.
\<close>

definition is_int_space :: "char \<Rightarrow> bool" where
  "is_int_space c = ((of_char c :: nat) \<in> set [9, 10, 11, 12, 13, 32, 133, 160])"

definition int_strip :: "string \<Rightarrow> string" where
  "int_strip s = rev (dropWhile is_int_space (rev (dropWhile is_int_space s)))"

definition py_int :: "string \<Rightarrow> int option" where
  "py_int s =
     (let t = int_strip s;
          neg = (t \<noteq> [] \<and> hd t = CHR ''-'');
          body = (if t \<noteq> [] \<and> (hd t = CHR ''-'' \<or> hd t = CHR ''+'') then tl t else t)
      in if length (filter is_digit body) > 4300 then None
         else (case body of
                 [] \<Rightarrow> None
               | c # cs \<Rightarrow>
                   (if is_digit c
                    then map_option (\<lambda>n. if neg then - int n else int n)
                           (int_digits (digit_val c) cs)
                    else None)))"

text \<open>\<^verbatim>\<open>str(n)\<close> for the integers that \<^verbatim>\<open>format\<close> prints.\<close>

fun str_nat :: "nat \<Rightarrow> string" where
  "str_nat n =
     (if n < 10 then [char_of (48 + n)]
      else str_nat (n div 10) @ [char_of (48 + n mod 10)])"

declare str_nat.simps [simp del]

definition str_int :: "int \<Rightarrow> string" where
  "str_int i = (if i < 0 then CHR ''-'' # str_nat (nat (- i)) else str_nat (nat i))"

section \<open>Data model\<close>

text \<open>
  The profile of an MCU as \<^verbatim>\<open>MCU.__init__\<close> reads it from the catalog: the list of
  port identifiers and the number of pins of a port, a count and so a natural number
  here. The numbers that the parser reads from a token are Python integers and may be
  negative.
\<close>

record MCU =
  ports :: "string list"
  pins_per_port :: nat

text \<open>The named tuple \<^verbatim>\<open>Pins._Pin\<close>.\<close>

record Pin =
  name :: string
  port :: string
  num :: int
  mode :: string
  od :: string
  otype :: string
  ospeed :: string
  pupd :: string
  af :: int
  raw :: string

text \<open>
  The dictionaries \<^verbatim>\<open>pin\<close> of \<^verbatim>\<open>_parse_data_str\<close> and \<^verbatim>\<open>_parse_pin_data\<close>: each of
  the ten keys is present (\<open>Some\<close>) or absent (\<open>None\<close>).
\<close>

record pin_dict =
  d_name :: "string option"
  d_port :: "string option"
  d_num :: "int option"
  d_mode :: "string option"
  d_od :: "string option"
  d_otype :: "string option"
  d_ospeed :: "string option"
  d_pupd :: "string option"
  d_af :: "int option"
  d_raw :: "string option"

definition empty_dict :: pin_dict where
  "empty_dict =
     \<lparr>d_name = None, d_port = None, d_num = None, d_mode = None, d_od = None,
      d_otype = None, d_ospeed = None, d_pupd = None, d_af = None, d_raw = None\<rparr>"

definition upd_key :: "'a option \<Rightarrow> 'a option \<Rightarrow> 'a option" where
  "upd_key old new = (case new of None \<Rightarrow> old | Some v \<Rightarrow> Some v)"

text \<open>\<^verbatim>\<open>a.update(b)\<close>: the keys of \<open>b\<close> replace those of \<open>a\<close>.\<close>

definition dict_update :: "pin_dict \<Rightarrow> pin_dict \<Rightarrow> pin_dict" where
  "dict_update a b =
     \<lparr>d_name = upd_key (d_name a) (d_name b),
      d_port = upd_key (d_port a) (d_port b),
      d_num = upd_key (d_num a) (d_num b),
      d_mode = upd_key (d_mode a) (d_mode b),
      d_od = upd_key (d_od a) (d_od b),
      d_otype = upd_key (d_otype a) (d_otype b),
      d_ospeed = upd_key (d_ospeed a) (d_ospeed b),
      d_pupd = upd_key (d_pupd a) (d_pupd b),
      d_af = upd_key (d_af a) (d_af b),
      d_raw = upd_key (d_raw a) (d_raw b)\<rparr>"

definition complete_dict :: "pin_dict \<Rightarrow> bool" where
  "complete_dict d =
     (d_name d \<noteq> None \<and> d_port d \<noteq> None \<and> d_num d \<noteq> None \<and> d_mode d \<noteq> None \<and>
      d_od d \<noteq> None \<and> d_otype d \<noteq> None \<and> d_ospeed d \<noteq> None \<and> d_pupd d \<noteq> None \<and>
      d_af d \<noteq> None \<and> d_raw d \<noteq> None)"

text \<open>
  \<^verbatim>\<open>self._Pin(**pin)\<close>: the constructor of the named tuple raises \<^verbatim>\<open>TypeError\<close> when a
  field has no value.
\<close>

definition mk_Pin :: "pin_dict \<Rightarrow> error + Pin" where
  "mk_Pin d =
     (if complete_dict d
      then Inr \<lparr>name = the (d_name d), port = the (d_port d), num = the (d_num d),
                mode = the (d_mode d), od = the (d_od d), otype = the (d_otype d),
                ospeed = the (d_ospeed d), pupd = the (d_pupd d), af = the (d_af d),
                raw = the (d_raw d)\<rparr>
      else Inl TypeError)"

section \<open>Pin attribute parser\<close>

text \<open>
  The first condition of the loop body of \<^verbatim>\<open>_parse_data_str\<close>,
  \<^verbatim>\<open>elm[0] == "P" and elm[1] in self.mcu.ports and int(elm[2:]) < self.mcu.pins_per_port\<close>,
  evaluated from left to right: \<^verbatim>\<open>elm[0]\<close> and \<^verbatim>\<open>elm[1]\<close> raise \<^verbatim>\<open>IndexError\<close> on a
  string that is too short, \<^verbatim>\<open>int\<close> raises \<^verbatim>\<open>ValueError\<close>.
\<close>

definition is_position :: "MCU \<Rightarrow> string \<Rightarrow> error + bool" where
  "is_position mcu elm =
     (case elm of
        [] \<Rightarrow> Inl IndexError
      | c0 # rest \<Rightarrow>
          if c0 \<noteq> CHR ''P'' then Inr False
          else (case rest of
                  [] \<Rightarrow> Inl IndexError
                | c1 # rest2 \<Rightarrow>
                    if [c1] \<notin> set (ports mcu) then Inr False
                    else (case py_int rest2 of
                            None \<Rightarrow> Inl ValueError
                          | Some n \<Rightarrow> Inr (n < int (pins_per_port mcu)))))"

text \<open>The keyword lists of the \<^verbatim>\<open>elif\<close> chain.\<close>

definition mode_keywords :: "string list" where
  "mode_keywords = [''INPUT'', ''OUTPUT'', ''ANALOG'']"

definition od_keywords :: "string list" where
  "od_keywords = [''STARTLOW'', ''STARTHIGH'']"

definition otype_keywords :: "string list" where
  "otype_keywords = [''PUSHPULL'', ''OPENDRAIN'']"

definition ospeed_keywords :: "string list" where
  "ospeed_keywords = [''VERYLOWSPEED'', ''LOWSPEED'', ''MEDIUMSPEED'', ''HIGHSPEED'']"

definition pupd_keywords :: "string list" where
  "pupd_keywords = [''FLOATING'', ''PULLUP'', ''PULLDOWN'']"

text \<open>
  The body of the loop of \<^verbatim>\<open>_parse_data_str\<close> on one stripped, upper-cased token; the
  state is the dictionary \<^verbatim>\<open>pin\<close> and the list \<^verbatim>\<open>raw\<close> (here \<open>raws\<close>).
\<close>

definition parse_elm :: "MCU \<Rightarrow> string \<Rightarrow> pin_dict \<times> string list \<Rightarrow> error + pin_dict \<times> string list" where
  "parse_elm mcu elm st =
     (let pin = fst st; raws = snd st in
      case is_position mcu elm of
        Inl e \<Rightarrow> Inl e
      | Inr True \<Rightarrow>
          Inr (pin\<lparr>d_port := Some [elm ! 1], d_num := py_int (drop 2 elm)\<rparr>, raws)
      | Inr False \<Rightarrow>
          if elm \<in> set mode_keywords then
            (if d_mode pin \<noteq> None then Inl ConflictingMode
             else Inr (pin\<lparr>d_mode := Some elm, d_af := Some 0\<rparr>, raws @ [elm]))
          else if elm \<in> set od_keywords then
            Inr (pin\<lparr>d_od := Some (drop 5 elm)\<rparr>, raws @ [elm])
          else if elm \<in> set otype_keywords then
            Inr (pin\<lparr>d_otype := Some elm\<rparr>, raws @ [elm])
          else if elm \<in> set ospeed_keywords then
            Inr (pin\<lparr>d_ospeed := Some (take (length elm - 5) elm)\<rparr>, raws @ [elm])
          else if elm \<in> set pupd_keywords then
            Inr (pin\<lparr>d_pupd := Some elm\<rparr>, raws @ [elm])
          else if take 2 elm = ''AF'' then
            (if d_mode pin \<noteq> None then Inl ConflictingMode
             else (case py_int (drop 2 elm) of
                     None \<Rightarrow> Inl ValueError
                   | Some n \<Rightarrow> Inr (pin\<lparr>d_mode := Some ''ALTERNATE'', d_af := Some n\<rparr>, raws @ [elm])))
          else Inl (UnknownKeyword elm))"

text \<open>The loop over the tokens: the first failure ends the run.\<close>

fun parse_loop :: "MCU \<Rightarrow> string list \<Rightarrow> pin_dict \<times> string list \<Rightarrow> error + pin_dict \<times> string list" where
  "parse_loop mcu [] st = Inr st"
| "parse_loop mcu (elm # elms) st =
     (case parse_elm mcu (upper (strip elm)) st of
        Inl e \<Rightarrow> Inl e
      | Inr st' \<Rightarrow> parse_loop mcu elms st')"

text \<open>\<^verbatim>\<open>_default_check_data\<close>: the first missing family is reported.\<close>

definition default_check_data :: "pin_dict \<Rightarrow> error option" where
  "default_check_data pin =
     (if d_mode pin = None then Some (IncompleteDefault ''mode'')
      else if d_od pin = None then Some (IncompleteDefault ''od'')
      else if d_otype pin = None then Some (IncompleteDefault ''otype'')
      else if d_ospeed pin = None then Some (IncompleteDefault ''ospeed'')
      else if d_pupd pin = None then Some (IncompleteDefault ''pupd'')
      else if d_port pin \<noteq> None then Some DefaultHasPosition
      else None)"

text \<open>\<^verbatim>\<open>_parse_data_str(pin_data, default)\<close>.\<close>

definition parse_data_str :: "MCU \<Rightarrow> string \<Rightarrow> bool \<Rightarrow> error + pin_dict \<times> string list" where
  "parse_data_str mcu pin_data dflt =
     (case parse_loop mcu (split_comma pin_data) (empty_dict, []) of
        Inl e \<Rightarrow> Inl e
      | Inr (pin, raws) \<Rightarrow>
          if dflt then
            (case default_check_data pin of
               Some e \<Rightarrow> Inl e
             | None \<Rightarrow> Inr (pin, raws))
          else Inr (pin, raws))"

text \<open>\<^verbatim>\<open>_parse_pin_data(name, pin_data, default)\<close>.\<close>

definition parse_pin_data :: "MCU \<Rightarrow> string \<Rightarrow> string \<Rightarrow> pin_dict \<Rightarrow> error + Pin" where
  "parse_pin_data mcu nm pin_data dflt =
     (let pin = dict_update (empty_dict\<lparr>d_name := Some (upper nm)\<rparr>) dflt in
      case parse_data_str mcu pin_data False of
        Inl e \<Rightarrow> Inl e
      | Inr (data, raws) \<Rightarrow>
          mk_Pin ((dict_update pin data)\<lparr>d_raw := Some (lower (join '', '' raws))\<rparr>))"

section \<open>Pin table builder\<close>

text \<open>
  The state of a \<^verbatim>\<open>Pins\<close> object: the profile, the dictionary \<^verbatim>\<open>_pins\<close> from a port
  to its list of pins, and the dictionary \<^verbatim>\<open>_pins_by_name\<close>. Both dictionaries are
  association lists in insertion order, which is the order in which Python iterates
  over them; \<^const>\<open>AList.update\<close> replaces the value of a key that is present and appends
  a new key otherwise.
\<close>

record Pins =
  self_mcu :: MCU
  self_pins :: "(string \<times> Pin list) list"
  self_pins_by_name :: "(string \<times> Pin) list"

text \<open>The first failure of a list of results, or all the values.\<close>

fun collect :: "(error + 'a) list \<Rightarrow> error + 'a list" where
  "collect [] = Inr []"
| "collect (r # rs) =
     (case r of
        Inl e \<Rightarrow> Inl e
      | Inr v \<Rightarrow> (case collect rs of Inl e \<Rightarrow> Inl e | Inr vs \<Rightarrow> Inr (v # vs)))"

text \<open>
  \<^verbatim>\<open>self._Pin(name="PIN{}".format(n), port=port, num=n, raw="unused", **default)\<close>: a key
  of \<^verbatim>\<open>default\<close> that repeats one of the four keyword arguments is a \<^verbatim>\<open>TypeError\<close>.
\<close>

definition default_pin :: "pin_dict \<Rightarrow> string \<Rightarrow> nat \<Rightarrow> error + Pin" where
  "default_pin dflt prt n =
     (if d_name dflt = None \<and> d_port dflt = None \<and> d_num dflt = None \<and> d_raw dflt = None
      then mk_Pin (dflt\<lparr>d_name := Some (''PIN'' @ str_nat n), d_port := Some prt,
                         d_num := Some (int n), d_raw := Some ''unused''\<rparr>)
      else Inl TypeError)"

text \<open>The dictionary comprehension that seeds \<^verbatim>\<open>self._pins\<close>, port by port.\<close>

fun init_pins :: "MCU \<Rightarrow> pin_dict \<Rightarrow> string list \<Rightarrow> (string \<times> Pin list) list \<Rightarrow>
    error + (string \<times> Pin list) list" where
  "init_pins mcu dflt [] tbl = Inr tbl"
| "init_pins mcu dflt (prt # prts) tbl =
     (case collect (map (default_pin dflt prt) [0..<pins_per_port mcu]) of
        Inl e \<Rightarrow> Inl e
      | Inr row \<Rightarrow> init_pins mcu dflt prts (AList.update prt row tbl))"

text \<open>
  \<^verbatim>\<open>xs[i] = v\<close> on a Python list: a negative index counts from the end, an index out of
  range raises \<^verbatim>\<open>IndexError\<close>.
\<close>

definition list_assign :: "'a list \<Rightarrow> int \<Rightarrow> 'a \<Rightarrow> error + 'a list" where
  "list_assign xs i v =
     (let n = int (length xs); j = (if i < 0 then i + n else i)
      in if 0 \<le> j \<and> j < n then Inr (xs[nat j := v]) else Inl IndexError)"

text \<open>
  The loop over \<^verbatim>\<open>board_def['pins'].items()\<close>: the declarations are the pairs of a name
  and an attribute string, in the order of the document.
\<close>

fun declare_pins :: "MCU \<Rightarrow> pin_dict \<Rightarrow> (string \<times> string) list \<Rightarrow>
    (string \<times> Pin list) list \<times> (string \<times> Pin) list \<Rightarrow>
    error + (string \<times> Pin list) list \<times> (string \<times> Pin) list" where
  "declare_pins mcu dflt [] st = Inr st"
| "declare_pins mcu dflt (decl # decls) st =
     (case parse_pin_data mcu (fst decl) (snd decl) dflt of
        Inl e \<Rightarrow> Inl e
      | Inr pin \<Rightarrow>
          (case map_of (fst st) (port pin) of
             None \<Rightarrow> Inl KeyError
           | Some row \<Rightarrow>
               (case list_assign row (num pin) pin of
                  Inl e \<Rightarrow> Inl e
                | Inr row' \<Rightarrow>
                    declare_pins mcu dflt decls
                      (AList.update (port pin) row' (fst st),
                       AList.update (name pin) pin (snd st)))))"

text \<open>
  \<^verbatim>\<open>Pins.__init__\<close>. The profile is the one that \<^verbatim>\<open>MCU(board_def['mcutype'])\<close> has
  loaded; \<open>default_str\<close> is \<^verbatim>\<open>board_def['default']\<close> and \<open>decls\<close> the items of
  \<^verbatim>\<open>board_def['pins']\<close>.
\<close>

definition Pins_init :: "MCU \<Rightarrow> string \<Rightarrow> (string \<times> string) list \<Rightarrow> error + Pins" where
  "Pins_init mcu default_str decls =
     (case parse_data_str mcu default_str True of
        Inl e \<Rightarrow> Inl e
      | Inr (dflt, _) \<Rightarrow>
          (case init_pins mcu dflt (ports mcu) [] of
             Inl e \<Rightarrow> Inl e
           | Inr tbl \<Rightarrow>
               (case declare_pins mcu dflt decls (tbl, []) of
                  Inl e \<Rightarrow> Inl e
                | Inr st \<Rightarrow>
                    Inr \<lparr>self_mcu = mcu, self_pins = fst st, self_pins_by_name = snd st\<rparr>)))"



definition iter_ports :: "Pins \<Rightarrow> string list" where
  "iter_ports P = sort (map fst (self_pins P))"

definition iter_port :: "Pins \<Rightarrow> string \<Rightarrow> error + Pin list" where
  "iter_port P prt = (case map_of (self_pins P) (upper prt) of None \<Rightarrow> Inl KeyError | Some row \<Rightarrow> Inr row)"

section \<open>Header emitter\<close>

definition newline :: char where
  "newline = CHR 0x0A"

text \<open>\<^verbatim>\<open>" " * k\<close> is empty for a negative \<open>k\<close>; so is \<^const>\<open>replicate\<close> on a truncated difference.\<close>

definition pad :: "nat \<Rightarrow> string \<Rightarrow> string" where
  "pad width s = replicate (width - length s) CHR '' ''"

text \<open>The format specification \<^verbatim>\<open>{:<w}\<close>.\<close>

definition ljust :: "nat \<Rightarrow> string \<Rightarrow> string" where
  "ljust width s = s @ pad width s"




text \<open>The separator of the terms of a register expression.\<close>

definition term_sep :: string where
  "term_sep = '' | '' @ [CHR 0x5C, newline] @ replicate 40 CHR '' ''"

text \<open>The terms of the two alternate-function expressions of \<^verbatim>\<open>write_io_ports\<close>.\<close>

definition af_term :: "string \<Rightarrow> Pin \<Rightarrow> string" where
  "af_term prt pin =
     ''PIN_AFIO_AF(GPIO'' @ prt @ ''_'' @ name pin @ '', '' @ str_int (af pin) @ ''U)''"

definition afrl_terms :: "string \<Rightarrow> Pin list \<Rightarrow> string list" where
  "afrl_terms prt row = map (af_term prt) (filter (\<lambda>pin. num pin < 8) row)"

definition afrh_terms :: "string \<Rightarrow> Pin list \<Rightarrow> string list" where
  "afrh_terms prt row = map (af_term prt) (filter (\<lambda>pin. num pin \<ge> 8) row)"

definition afrl :: "string \<Rightarrow> Pin list \<Rightarrow> string" where
  "afrl prt row =
     ''#define VAL_GPIO'' @ prt @ ''_AFRL                 ('' @
     join term_sep (afrl_terms prt row) @ '')'' @ [newline]"

definition afrh :: "string \<Rightarrow> Pin list \<Rightarrow> string" where
  "afrh prt row =
     ''#define VAL_GPIO'' @ prt @ ''_AFRH                 ('' @
     join term_sep (afrh_terms prt row) @ '')'' @ [newline]"

text \<open>
  The five attribute expressions: \<^verbatim>\<open>pin._asdict()[mode.lower()]\<close> reads the field named
  by the register.
\<close>

definition mode_field :: "string \<Rightarrow> Pin \<Rightarrow> string" where
  "mode_field m pin =
     (if m = ''MODE'' then mode pin
      else if m = ''OTYPE'' then otype pin
      else if m = ''OSPEED'' then ospeed pin
      else if m = ''PUPD'' then pupd pin
      else od pin)"

definition mode_term :: "string \<Rightarrow> Pin \<Rightarrow> string" where
  "mode_term m pin =
     ''PIN_'' @ m @ ''_'' @ mode_field m pin @ ''(GPIO'' @ port pin @ ''_'' @ name pin @ '')''"

definition mode_terms :: "string \<Rightarrow> Pin list \<Rightarrow> string list" where
  "mode_terms m row = map (mode_term m) row"

definition mode_line :: "string \<Rightarrow> Pin list \<Rightarrow> string \<Rightarrow> string" where
  "mode_line prt row m =
     ljust 39 (''#define VAL_GPIO'' @ prt @ ''_'' @ m @ ''R'') @ ''('' @
     join term_sep (mode_terms m row) @ '')'' @ [newline]"

definition port_comment :: "string \<Rightarrow> Pin list \<Rightarrow> string" where
  "port_comment prt row =
     ''/*'' @ [newline] @ '' *  GPIO'' @ prt @ '' setup:'' @ [newline] @ '' *'' @ [newline] @
     concat (map (\<lambda>pin. '' * P'' @ port pin @ ljust 3 (str_int (num pin)) @ ''- '' @
                         ljust 29 (name pin) @ ''('' @ raw pin @ '').'' @ [newline]) row) @
     ''*/'' @ [newline]"

text \<open>The text that \<^verbatim>\<open>write_io_ports\<close> writes for one port.\<close>

definition write_io_port :: "string \<Rightarrow> Pin list \<Rightarrow> string" where
  "write_io_port prt row =
     port_comment prt row @
     concat (map (mode_line prt row) [''MODE'', ''OTYPE'', ''OSPEED'', ''PUPD'', ''OD'']) @
     afrl prt row @ afrh prt row @ [newline]"

text \<open>\<^verbatim>\<open>write_io_ports\<close>: the ports in sorted order.\<close>

definition write_io_ports :: "Pins \<Rightarrow> error + string" where
  "write_io_ports P =
     (case collect (map (\<lambda>prt. case iter_port P prt of
                                  Inl e \<Rightarrow> Inl e
                                | Inr row \<Rightarrow> Inr (write_io_port prt row)) (iter_ports P)) of
        Inl e \<Rightarrow> Inl e
      | Inr blocks \<Rightarrow> Inr (concat blocks))"

section \<open>The generator, step by step\<close>


definition board_afrl :: "MCU \<Rightarrow> string \<Rightarrow> (string \<times> string) list \<Rightarrow> string \<Rightarrow> error + string" where
  "board_afrl mcu default_str decls prt =
     (case Pins_init mcu default_str decls of
        Inl e \<Rightarrow> Inl e
      | Inr P \<Rightarrow> (case iter_port P prt of Inl e \<Rightarrow> Inl e | Inr row \<Rightarrow> Inr (afrl prt row)))"

definition board_afrh :: "MCU \<Rightarrow> string \<Rightarrow> (string \<times> string) list \<Rightarrow> string \<Rightarrow> error + string" where
  "board_afrh mcu default_str decls prt =
     (case Pins_init mcu default_str decls of
        Inl e \<Rightarrow> Inl e
      | Inr P \<Rightarrow> (case iter_port P prt of Inl e \<Rightarrow> Inl e | Inr row \<Rightarrow> Inr (afrh prt row)))"

section \<open>Notions used in the properties\<close>

text \<open>A token is accepted when the loop body takes it from the empty state.\<close>

definition accepted :: "MCU \<Rightarrow> string \<Rightarrow> bool" where
  "accepted mcu elm = (case parse_elm mcu elm (empty_dict, []) of Inl _ \<Rightarrow> False | Inr _ \<Rightarrow> True)"

text \<open>The tokens that reach one of the two branches that set \<^verbatim>\<open>pin['mode']\<close>.\<close>

definition sets_mode :: "string \<Rightarrow> bool" where
  "sets_mode elm = (elm \<in> set mode_keywords \<or> take 2 elm = ''AF'')"

text \<open>
  The position of a row that \<^verbatim>\<open>self._pins[pin.port][pin.num] = pin\<close> writes, for a row
  of \<open>pins_per_port\<close> pins.
\<close>

definition slot :: "MCU \<Rightarrow> int \<Rightarrow> nat" where
  "slot mcu n = nat (if n < 0 then n + int (pins_per_port mcu) else n)"

text \<open>The values that the parser can give to the five electrical attributes.\<close>

definition attrs_ok :: "Pin \<Rightarrow> bool" where
  "attrs_ok p =
     (mode p \<in> set [''INPUT'', ''OUTPUT'', ''ANALOG'', ''ALTERNATE''] \<and>
      od p \<in> set [''LOW'', ''HIGH''] \<and>
      otype p \<in> set [''PUSHPULL'', ''OPENDRAIN''] \<and>
      ospeed p \<in> set [''VERYLOW'', ''LOW'', ''MEDIUM'', ''HIGH''] \<and>
      pupd p \<in> set [''FLOATING'', ''PULLUP'', ''PULLDOWN''])"

text \<open>A declaration targets a position when its record is written there.\<close>

definition targets :: "MCU \<Rightarrow> pin_dict \<Rightarrow> string \<times> string \<Rightarrow> string \<Rightarrow> nat \<Rightarrow> bool" where
  "targets mcu dflt decl prt i =
     (case parse_pin_data mcu (fst decl) (snd decl) dflt of
        Inl _ \<Rightarrow> False
      | Inr q \<Rightarrow> port q = prt \<and> slot mcu (num q) = i)"

text \<open>Invariants of the parser state, of the table and of the dictionary of names.\<close>

definition opt_in :: "'a option \<Rightarrow> 'a list \<Rightarrow> bool" where
  "opt_in v xs = (case v of None \<Rightarrow> True | Some x \<Rightarrow> x \<in> set xs)"

definition dict_ok :: "MCU \<Rightarrow> pin_dict \<Rightarrow> bool" where
  "dict_ok mcu d =
     (d_name d = None \<and> d_raw d = None \<and>
      (d_port d = None \<longleftrightarrow> d_num d = None) \<and>
      opt_in (d_port d) (ports mcu) \<and>
      (case d_num d of None \<Rightarrow> True | Some n \<Rightarrow> n < int (pins_per_port mcu)) \<and>
      (d_mode d = None \<longleftrightarrow> d_af d = None) \<and>
      opt_in (d_mode d) [''INPUT'', ''OUTPUT'', ''ANALOG'', ''ALTERNATE''] \<and>
      opt_in (d_od d) [''LOW'', ''HIGH''] \<and>
      opt_in (d_otype d) [''PUSHPULL'', ''OPENDRAIN''] \<and>
      opt_in (d_ospeed d) [''VERYLOW'', ''LOW'', ''MEDIUM'', ''HIGH''] \<and>
      opt_in (d_pupd d) [''FLOATING'', ''PULLUP'', ''PULLDOWN''])"

definition placed :: "MCU \<Rightarrow> pin_dict \<Rightarrow> (string \<times> string) list \<Rightarrow> string \<Rightarrow> nat \<Rightarrow> Pin \<Rightarrow> bool" where
  "placed mcu dflt decls prt i p =
     (default_pin dflt prt i = Inr p \<or>
      (\<exists>decl\<in>set decls. parse_pin_data mcu (fst decl) (snd decl) dflt = Inr p \<and>
         targets mcu dflt decl prt i))"

definition tbl_inv :: "MCU \<Rightarrow> pin_dict \<Rightarrow> (string \<times> string) list \<Rightarrow> (string \<times> Pin list) list \<Rightarrow> bool" where
  "tbl_inv mcu dflt decls tbl =
     (distinct (map fst tbl) \<and>
      (\<forall>prt row. map_of tbl prt = Some row \<longrightarrow>
         length row = pins_per_port mcu \<and>
         (\<forall>i<pins_per_port mcu. placed mcu dflt decls prt i (row ! i))))"


section \<open>Example boards\<close>

text \<open>
  A profile with one port of two pins and one with one port of nine pins, the default
  attribute string of the specification's scenarios, and the values that the parser and
  the builder compute from them.
\<close>

definition ex_mcu :: MCU where
  "ex_mcu = \<lparr>ports = [''A''], pins_per_port = 2\<rparr>"

definition ex_mcu9 :: MCU where
  "ex_mcu9 = \<lparr>ports = [''A''], pins_per_port = 9\<rparr>"

definition ex_default :: string where
  "ex_default = ''OUTPUT, STARTLOW, PUSHPULL, HIGHSPEED, FLOATING''"

definition ex_dflt :: pin_dict where
  "ex_dflt =
     \<lparr>d_name = None, d_port = None, d_num = None, d_mode = Some ''OUTPUT'', d_od = Some ''LOW'',
      d_otype = Some ''PUSHPULL'', d_ospeed = Some ''HIGH'', d_pupd = Some ''FLOATING'',
      d_af = Some 0, d_raw = None\<rparr>"

definition ex_pin :: "string \<Rightarrow> int \<Rightarrow> string \<Rightarrow> Pin" where
  "ex_pin nm n rw =
     \<lparr>name = nm, port = ''A'', num = n, mode = ''OUTPUT'', od = ''LOW'', otype = ''PUSHPULL'',
      ospeed = ''HIGH'', pupd = ''FLOATING'', af = 0, raw = rw\<rparr>"

definition ex_led :: Pin where
  "ex_led = (ex_pin ''LED'' 1 ''af3'')\<lparr>mode := ''ALTERNATE'', af := 3\<rparr>"

definition ex_btn :: Pin where
  "ex_btn = (ex_pin ''BTN'' 1 ''input, pullup'')\<lparr>mode := ''INPUT'', pupd := ''PULLUP''\<rparr>"

definition ex_decls :: "(string \<times> string) list" where
  "ex_decls = [(''led'', ''PA1, AF3''), (''btn'', ''PA1, INPUT, PULLUP'')]"

definition ex_pins :: Pins where
  "ex_pins =
     \<lparr>self_mcu = ex_mcu,
      self_pins = [(''A'', [ex_pin ''PIN0'' 0 ''unused'', ex_btn])],
      self_pins_by_name = [(''LED'', ex_led), (''BTN'', ex_btn)]\<rparr>"

section \<open>The resolver: scoring and selection\<close>

text \<open>
  C1. The specification scores a mismatch against the placeholder \<open>x\<close> of a pattern as
  0. The source tests the whole pattern against \<^verbatim>\<open>"x"\<close> instead of the current pattern
  character, so a placeholder position of a longer pattern costs one point like any
  other mismatch: the request \<^verbatim>\<open>STM32F405\<close> scores 5 against \<^verbatim>\<open>STM32F4xx\<close> (seven
  matches, two mismatches), where the scoring of the specification gives 7.
\<close>

theorem match_names_placeholder_counts_as_mismatch:
  "match_names ''STM32F405'' ''STM32F4xx'' = 5 \<and>
   spec_match_score ''STM32F405'' ''STM32F4xx'' = 7"
  by (simp add: match_names_def spec_match_score_def)

text \<open>
  The last element of a stable insertion sort is the greatest one, and among equals the
  last of the input.
\<close>

lemma last_insort_key:
  "sorted (map f zs) \<Longrightarrow>
   last (insort_key f y zs) = (if zs = [] \<or> f (last zs) < f y then y else last zs)"
proof (induction zs)
  case Nil
  then show ?case by simp
next
  case (Cons z zs)
  show ?case
  proof (cases "zs = []")
    case True
    then show ?thesis by auto
  next
    case False
    have le: "f z \<le> f (last zs)" using Cons.prems False by auto
    have "sorted (map f zs)" using Cons.prems by simp
    from Cons.IH[OF this] False
    have IH: "last (insort_key f y zs) = (if f (last zs) < f y then y else last zs)" by simp
    have ne: "insort_key f y zs \<noteq> []" by (cases zs) auto
    show ?thesis using False le IH ne by auto
  qed
qed

lemma last_sort_key_split:
  fixes f :: "'a \<Rightarrow> int"
  shows "ys \<noteq> [] \<Longrightarrow>
   \<exists>as bs. ys = as @ last (sort_key f ys) # bs \<and>
     (\<forall>a\<in>set as. f a \<le> f (last (sort_key f ys))) \<and>
     (\<forall>b\<in>set bs. f b < f (last (sort_key f ys)))"
proof (induction ys)
  case Nil
  then show ?case by simp
next
  case (Cons y ys)
  show ?case
  proof (cases "ys = []")
    case True
    then have "y # ys = [] @ last (sort_key f (y # ys)) # []" by simp
    then show ?thesis by (metis empty_iff list.set(1))
  next
    case False
    let ?m = "last (sort_key f ys)"
    from Cons.IH[OF False] obtain as bs where
      ys: "ys = as @ ?m # bs" and as: "\<forall>a\<in>set as. f a \<le> f ?m" and bs: "\<forall>b\<in>set bs. f b < f ?m"
      by blast
    have ne: "sort_key f ys \<noteq> []" using False by (metis length_0_conv length_sort)
    have l: "last (sort_key f (y # ys)) = (if f ?m < f y then y else ?m)"
      using last_insort_key[of f "sort_key f ys" y] ne by simp
    show ?thesis
    proof (cases "f ?m < f y")
      case True
      have "\<forall>b\<in>set ys. f b < f y"
      proof
        fix b assume "b \<in> set ys"
        then have "b \<in> set as \<or> b = ?m \<or> b \<in> set bs" using ys by (metis Un_iff set_ConsD set_append)
        then show "f b < f y" using as bs True by force
      qed
      then have "y # ys = [] @ y # ys \<and> (\<forall>a\<in>set []. f a \<le> f y) \<and> (\<forall>b\<in>set ys. f b < f y)" by simp
      then show ?thesis using l True by metis
    next
      case False
      have "y # ys = (y # as) @ ?m # bs" using ys by simp
      moreover have "\<forall>a\<in>set (y # as). f a \<le> f ?m" using as False by auto
      ultimately show ?thesis using l False bs by metis
    qed
  qed
qed

text \<open>
  So the head of the descending ranking is the first element of the input with the
  greatest key.
\<close>

lemma sorted_key_reverse_first_max:
  fixes f :: "'a \<Rightarrow> int"
  assumes "xs \<noteq> []"
  shows "\<exists>c rest pre post. sorted_key_reverse f xs = c # rest \<and> xs = pre @ c # post \<and>
           (\<forall>p\<in>set pre. f p < f c) \<and> (\<forall>q\<in>set post. f q \<le> f c)"
proof -
  let ?ys = "rev xs"
  let ?c = "last (sort_key f ?ys)"
  have ne: "?ys \<noteq> []" using assms by simp
  from last_sort_key_split[OF ne, of f] obtain as bs where
    ys: "?ys = as @ ?c # bs" and as: "\<forall>a\<in>set as. f a \<le> f ?c" and bs: "\<forall>b\<in>set bs. f b < f ?c"
    by blast
  have sne: "sort_key f ?ys \<noteq> []" using ne by (metis length_0_conv length_sort)
  have "xs = rev (as @ ?c # bs)" using ys by (metis rev_rev_ident)
  then have xs: "xs = rev bs @ ?c # rev as" by simp
  have hd: "sorted_key_reverse f xs = ?c # tl (rev (sort_key f ?ys))"
    unfolding sorted_key_reverse_def using sne
    by (metis hd_rev list.collapse rev_is_Nil_conv)
  show ?thesis using hd xs as bs by (metis set_rev)
qed

text \<open>
  On a catalog with at least one pattern the resolver does what the specification says:
  the chosen pattern \<open>c\<close> scores strictly more than every pattern before it and at least
  as much as every pattern after it, and the run fails with \<open>NoMatchingProfile\<close> exactly
  when that score is not positive.
\<close>

lemma choose_mcu_file_first_best:
  assumes "mcu_types listing \<noteq> []"
  shows "\<exists>c pre post. mcu_types listing = pre @ c # post \<and>
           (\<forall>p\<in>set pre. match_names mcutype p < match_names mcutype c) \<and>
           (\<forall>q\<in>set post. match_names mcutype q \<le> match_names mcutype c) \<and>
           choose_mcu_file mcu_dir listing mcutype =
             (if match_names mcutype c \<le> 0 then Inl NoMatchingProfile
              else Inr (os_path_join mcu_dir (c @ ''.yaml'')))"
proof -
  from sorted_key_reverse_first_max[OF assms, of "\<lambda>x. match_names mcutype x"]
  obtain c rest pre post where
    r: "sorted_key_reverse (\<lambda>x. match_names mcutype x) (mcu_types listing) = c # rest" and
    s: "mcu_types listing = pre @ c # post" and
    p: "\<forall>p\<in>set pre. match_names mcutype p < match_names mcutype c" and
    q: "\<forall>q\<in>set post. match_names mcutype q \<le> match_names mcutype c"
    by blast
  have "choose_mcu_file mcu_dir listing mcutype =
          (if match_names mcutype c \<le> 0 then Inl NoMatchingProfile
           else Inr (os_path_join mcu_dir (c @ ''.yaml'')))"
    by (simp add: choose_mcu_file_def Let_def r)
  then show ?thesis using s p q by blast
qed

text \<open>
  C2. The resolver returns the first pattern of the catalog with the highest score and
  fails with \<open>NoMatchingProfile\<close> when no pattern scores above zero. On a catalog without
  any pattern no pattern scores above zero, and the source does not reach its
  \<open>NoMatchingProfile\<close> exit: \<^verbatim>\<open>rank_types[0]\<close> raises \<^verbatim>\<open>IndexError\<close>.
\<close>

theorem choose_mcu_file_empty_catalog:
  "choose_mcu_file mcu_dir [] mcutype = Inl IndexError \<and>
   choose_mcu_file ''mcu'' [''README.md''] ''STM32F405'' = Inl IndexError"
  by (simp add: choose_mcu_file_def mcu_types_def sorted_key_reverse_def)

section \<open>The parser: invariants of the loop\<close>

lemma is_position_True:
  "is_position mcu elm = Inr True \<Longrightarrow>
   \<exists>c rest n. elm = CHR ''P'' # c # rest \<and> [c] \<in> set (ports mcu) \<and> py_int rest = Some n \<and>
     n < int (pins_per_port mcu)"
  by (auto simp: is_position_def split: list.splits if_splits option.splits)

lemma dict_ok_empty: "dict_ok mcu empty_dict"
  by (simp add: dict_ok_def empty_dict_def opt_in_def)

lemma parse_elm_cases:
  assumes "parse_elm mcu elm st = Inr st'"
  shows
    "(\<exists>c rest n. elm = CHR ''P'' # c # rest \<and> [c] \<in> set (ports mcu) \<and> py_int rest = Some n \<and>
        n < int (pins_per_port mcu) \<and>
        st' = ((fst st)\<lparr>d_port := Some [c], d_num := Some n\<rparr>, snd st)) \<or>
     (elm \<in> set mode_keywords \<and> d_mode (fst st) = None \<and>
        st' = ((fst st)\<lparr>d_mode := Some elm, d_af := Some 0\<rparr>, snd st @ [elm])) \<or>
     (elm \<in> set od_keywords \<and>
        st' = ((fst st)\<lparr>d_od := Some (drop 5 elm)\<rparr>, snd st @ [elm])) \<or>
     (elm \<in> set otype_keywords \<and>
        st' = ((fst st)\<lparr>d_otype := Some elm\<rparr>, snd st @ [elm])) \<or>
     (elm \<in> set ospeed_keywords \<and>
        st' = ((fst st)\<lparr>d_ospeed := Some (take (length elm - 5) elm)\<rparr>, snd st @ [elm])) \<or>
     (elm \<in> set pupd_keywords \<and>
        st' = ((fst st)\<lparr>d_pupd := Some elm\<rparr>, snd st @ [elm])) \<or>
     (\<exists>n. take 2 elm = ''AF'' \<and> d_mode (fst st) = None \<and> py_int (drop 2 elm) = Some n \<and>
        st' = ((fst st)\<lparr>d_mode := Some ''ALTERNATE'', d_af := Some n\<rparr>, snd st @ [elm]))"
proof (cases "is_position mcu elm")
  case (Inl e)
  then show ?thesis using assms by (simp add: parse_elm_def)
next
  case (Inr b)
  show ?thesis
  proof (cases b)
    case True
    have "is_position mcu elm = Inr True" using Inr True by simp
    from is_position_True[OF this] obtain c rest n where
      e: "elm = CHR ''P'' # c # rest" "[c] \<in> set (ports mcu)" "py_int rest = Some n"
         "n < int (pins_per_port mcu)" by blast
    have "st' = ((fst st)\<lparr>d_port := Some [c], d_num := Some n\<rparr>, snd st)"
      using assms Inr True e by (simp add: parse_elm_def Let_def)
    then show ?thesis using e by blast
  next
    case False
    show ?thesis using assms Inr False
      by (simp add: parse_elm_def Let_def split: if_splits option.splits)
  qed
qed

lemma parse_elm_dict_ok:
  assumes ok: "dict_ok mcu (fst st)" and p: "parse_elm mcu elm st = Inr st'"
  shows "dict_ok mcu (fst st')"
  using parse_elm_cases[OF p]
proof (elim disjE exE conjE)
  fix c rest n
  assume "[c] \<in> set (ports mcu)" "n < int (pins_per_port mcu)"
    "st' = ((fst st)\<lparr>d_port := Some [c], d_num := Some n\<rparr>, snd st)"
  then show ?thesis using ok by (simp add: dict_ok_def opt_in_def)
next
  assume "elm \<in> set mode_keywords" "st' = ((fst st)\<lparr>d_mode := Some elm, d_af := Some 0\<rparr>, snd st @ [elm])"
  then show ?thesis using ok by (auto simp: dict_ok_def opt_in_def mode_keywords_def)
next
  assume "elm \<in> set od_keywords" "st' = ((fst st)\<lparr>d_od := Some (drop 5 elm)\<rparr>, snd st @ [elm])"
  then show ?thesis using ok by (auto simp: dict_ok_def opt_in_def od_keywords_def)
next
  assume "elm \<in> set otype_keywords" "st' = ((fst st)\<lparr>d_otype := Some elm\<rparr>, snd st @ [elm])"
  then show ?thesis using ok by (auto simp: dict_ok_def opt_in_def otype_keywords_def)
next
  assume "elm \<in> set ospeed_keywords"
    "st' = ((fst st)\<lparr>d_ospeed := Some (take (length elm - 5) elm)\<rparr>, snd st @ [elm])"
  then show ?thesis using ok by (auto simp: dict_ok_def opt_in_def ospeed_keywords_def)
next
  assume "elm \<in> set pupd_keywords" "st' = ((fst st)\<lparr>d_pupd := Some elm\<rparr>, snd st @ [elm])"
  then show ?thesis using ok by (auto simp: dict_ok_def opt_in_def pupd_keywords_def)
next
  fix n
  assume "st' = ((fst st)\<lparr>d_mode := Some ''ALTERNATE'', d_af := Some n\<rparr>, snd st @ [elm])"
  then show ?thesis using ok by (simp add: dict_ok_def opt_in_def)
qed

lemma parse_loop_dict_ok:
  "dict_ok mcu (fst st) \<Longrightarrow> parse_loop mcu toks st = Inr st' \<Longrightarrow> dict_ok mcu (fst st')"
proof (induction toks arbitrary: st)
  case Nil
  then show ?case by simp
next
  case (Cons t toks)
  from Cons.prems(2) obtain st1 where
    a: "parse_elm mcu (upper (strip t)) st = Inr st1" and b: "parse_loop mcu toks st1 = Inr st'"
    by (auto split: sum.splits)
  show ?case using Cons.IH[OF parse_elm_dict_ok[OF Cons.prems(1) a] b] .
qed

lemma parse_data_str_dict_ok:
  assumes "parse_data_str mcu s b = Inr (d, rw)"
  shows "dict_ok mcu d"
proof -
  from assms have "parse_loop mcu (split_comma s) (empty_dict, []) = Inr (d, rw)"
    by (auto simp: parse_data_str_def split: sum.splits if_splits option.splits prod.splits)
  from parse_loop_dict_ok[OF _ this] show ?thesis by (simp add: dict_ok_empty)
qed

lemma parse_elm_no_position:
  assumes "parse_elm mcu elm st = Inr st'" and "is_position mcu elm \<noteq> Inr True"
  shows "d_port (fst st') = d_port (fst st)"
proof (cases "is_position mcu elm")
  case (Inl e)
  then show ?thesis using assms by (simp add: parse_elm_def)
next
  case (Inr b)
  then have "is_position mcu elm = Inr False" using assms(2) by (cases b) auto
  then show ?thesis using assms(1)
    by (auto simp: parse_elm_def Let_def split: if_splits option.splits)
qed

lemma parse_loop_no_position:
  "parse_loop mcu toks st = Inr st' \<Longrightarrow>
   \<forall>t\<in>set toks. is_position mcu (upper (strip t)) \<noteq> Inr True \<Longrightarrow>
   d_port (fst st') = d_port (fst st)"
proof (induction toks arbitrary: st)
  case Nil
  then show ?case by simp
next
  case (Cons t toks)
  from Cons.prems(1) obtain st1 where
    a: "parse_elm mcu (upper (strip t)) st = Inr st1" and b: "parse_loop mcu toks st1 = Inr st'"
    by (auto split: sum.splits)
  have "d_port (fst st1) = d_port (fst st)" using parse_elm_no_position[OF a] Cons.prems(2) by simp
  moreover have "d_port (fst st') = d_port (fst st1)" using Cons.IH[OF b] Cons.prems(2) by simp
  ultimately show ?case by simp
qed

lemma parse_data_str_loop:
  "parse_data_str mcu s False = parse_loop mcu (split_comma s) (empty_dict, [])"
  by (auto simp: parse_data_str_def split: sum.splits)

lemma parse_pin_data_no_position:
  assumes np: "\<forall>t\<in>set (split_comma pin_data). is_position mcu (upper (strip t)) \<noteq> Inr True"
    and d: "d_port dflt = None"
  shows "parse_pin_data mcu nm pin_data dflt =
           (case parse_data_str mcu pin_data False of Inl e \<Rightarrow> Inl e | Inr r \<Rightarrow> Inl TypeError)"
proof (cases "parse_data_str mcu pin_data False")
  case (Inl e)
  then show ?thesis by (simp add: parse_pin_data_def)
next
  case (Inr r)
  then have "parse_loop mcu (split_comma pin_data) (empty_dict, []) = Inr r"
    by (simp add: parse_data_str_loop)
  from parse_loop_no_position[OF this np] have "d_port (fst r) = None"
    by (simp add: empty_dict_def)
  then have "\<not> complete_dict ((dict_update (dict_update (empty_dict\<lparr>d_name := Some (upper nm)\<rparr>) dflt) (fst r))
                 \<lparr>d_raw := Some (lower (join '', '' (snd r)))\<rparr>)"
    using d by (simp add: complete_dict_def dict_update_def upd_key_def empty_dict_def)
  then show ?thesis using Inr
    by (cases r) (simp add: parse_pin_data_def Let_def mk_Pin_def)
qed

lemma accepted_only_conflict:
  assumes "accepted mcu elm" and "parse_elm mcu elm st = Inl e"
  shows "e = ConflictingMode"
proof (cases "is_position mcu elm")
  case (Inl e')
  then show ?thesis using assms(1) by (simp add: accepted_def parse_elm_def)
next
  case (Inr b)
  show ?thesis
  proof (cases b)
    case True
    then show ?thesis using assms(2) Inr by (simp add: parse_elm_def Let_def)
  next
    case False
    show ?thesis using assms Inr False
      by (auto simp: accepted_def parse_elm_def Let_def empty_dict_def
               split: if_splits option.splits)
  qed
qed

lemma sets_mode_not_position: "sets_mode elm \<Longrightarrow> is_position mcu elm = Inr False"
  by (auto simp: sets_mode_def mode_keywords_def is_position_def split: list.splits)

lemma AF_not_keyword:
  "take 2 elm = ''AF'' \<Longrightarrow>
   elm \<notin> set mode_keywords \<and> elm \<notin> set od_keywords \<and> elm \<notin> set otype_keywords \<and>
   elm \<notin> set ospeed_keywords \<and> elm \<notin> set pupd_keywords"
  by (auto simp: mode_keywords_def od_keywords_def otype_keywords_def ospeed_keywords_def
        pupd_keywords_def)

lemma sets_mode_conflict:
  assumes "sets_mode elm" and "d_mode (fst st) \<noteq> None"
  shows "parse_elm mcu elm st = Inl ConflictingMode"
proof (cases "elm \<in> set mode_keywords")
  case True
  then show ?thesis using assms sets_mode_not_position[OF assms(1), of mcu]
    by (simp add: parse_elm_def Let_def)
next
  case False
  then have af: "take 2 elm = ''AF''" using assms(1) by (simp add: sets_mode_def)
  show ?thesis using assms(2) sets_mode_not_position[OF assms(1), of mcu] AF_not_keyword[OF af] af
    by (simp add: parse_elm_def Let_def)
qed

lemma parse_elm_mode_mono:
  assumes "parse_elm mcu elm st = Inr st'" and "d_mode (fst st) \<noteq> None \<or> sets_mode elm"
  shows "d_mode (fst st') \<noteq> None"
proof (cases "d_mode (fst st) \<noteq> None")
  case True
  show ?thesis using parse_elm_cases[OF assms(1)] True by auto
next
  case False
  then have sm: "sets_mode elm" using assms(2) by simp
  have np: "is_position mcu elm = Inr False" by (rule sets_mode_not_position[OF sm])
  show ?thesis
  proof (cases "elm \<in> set mode_keywords")
    case True
    then show ?thesis using assms(1) np by (auto simp: parse_elm_def Let_def split: if_splits)
  next
    case False
    then have af: "take 2 elm = ''AF''" using sm by (simp add: sets_mode_def)
    show ?thesis using assms(1) np AF_not_keyword[OF af] af
      by (auto simp: parse_elm_def Let_def split: if_splits option.splits)
  qed
qed

lemma parse_loop_append:
  "parse_loop mcu (pre @ post) st =
     (case parse_loop mcu pre st of Inl e \<Rightarrow> Inl e | Inr st' \<Rightarrow> parse_loop mcu post st')"
  by (induction pre arbitrary: st) (auto split: sum.splits)

lemma parse_loop_accepted:
  "\<forall>t\<in>set pre. accepted mcu (upper (strip t)) \<Longrightarrow> parse_loop mcu pre st = Inl e \<Longrightarrow>
   e = ConflictingMode"
proof (induction pre arbitrary: st)
  case Nil
  then show ?case by simp
next
  case (Cons t pre)
  show ?case
  proof (cases "parse_elm mcu (upper (strip t)) st")
    case (Inl e')
    then have "e' = e" using Cons.prems(2) by simp
    then show ?thesis using accepted_only_conflict[OF _ Inl] Cons.prems(1) by simp
  next
    case (Inr st1)
    then have "parse_loop mcu pre st1 = Inl e" using Cons.prems(2) by simp
    then show ?thesis using Cons.IH Cons.prems(1) by simp
  qed
qed

lemma parse_loop_mode_mono:
  "parse_loop mcu pre st = Inr st' \<Longrightarrow>
   d_mode (fst st) \<noteq> None \<or> (\<exists>a\<in>set pre. sets_mode (upper (strip a))) \<Longrightarrow>
   d_mode (fst st') \<noteq> None"
proof (induction pre arbitrary: st)
  case Nil
  then show ?case by simp
next
  case (Cons t pre)
  from Cons.prems(1) obtain st1 where
    a: "parse_elm mcu (upper (strip t)) st = Inr st1" and b: "parse_loop mcu pre st1 = Inr st'"
    by (auto split: sum.splits)
  show ?case
  proof (cases "d_mode (fst st) \<noteq> None \<or> sets_mode (upper (strip t))")
    case True
    from parse_elm_mode_mono[OF a True] show ?thesis using Cons.IH[OF b] by simp
  next
    case False
    then have "\<exists>a\<in>set pre. sets_mode (upper (strip a))" using Cons.prems(2) by auto
    then show ?thesis using Cons.IH[OF b] by simp
  qed
qed

text \<open>
  C4 (as the code has it). The loop stops at the first token that fails, so a string
  with a mode keyword and an alternate-function keyword fails with \<open>ConflictingMode\<close>
  when the tokens before the second of the two are accepted ones: whichever of the two
  comes first sets \<^verbatim>\<open>pin['mode']\<close>, and the other one finds it set. The token \<open>b\<close> is
  the second of the two, \<open>pre\<close> the tokens before it; the result is the same in the
  default context and in the context of a pin. The string is one on which \<open>upper\<close> is
  Python's \<^verbatim>\<open>str.upper\<close>.
\<close>

theorem mode_and_af_conflict:
  assumes rng: "upper_in_range pin_data"
    and toks: "split_comma pin_data = pre @ b # post"
    and acc: "\<forall>t\<in>set pre. accepted mcu (upper (strip t))"
    and both: "(\<exists>a\<in>set pre. upper (strip a) \<in> set mode_keywords) \<and> take 2 (upper (strip b)) = ''AF'' \<or>
               (\<exists>a\<in>set pre. take 2 (upper (strip a)) = ''AF'') \<and> upper (strip b) \<in> set mode_keywords"
  shows "parse_data_str mcu pin_data dflt = Inl ConflictingMode"
proof -
  have a: "\<exists>a\<in>set pre. sets_mode (upper (strip a))" using both by (auto simp: sets_mode_def)
  have b: "sets_mode (upper (strip b))" using both by (auto simp: sets_mode_def)
  have "parse_loop mcu (split_comma pin_data) (empty_dict, []) = Inl ConflictingMode"
  proof (cases "parse_loop mcu pre (empty_dict, [])")
    case (Inl e)
    then have "e = ConflictingMode" using parse_loop_accepted[OF acc] by simp
    then show ?thesis using Inl toks by (simp add: parse_loop_append)
  next
    case (Inr st1)
    have "d_mode (fst st1) \<noteq> None" using parse_loop_mode_mono[OF Inr] a by simp
    from sets_mode_conflict[OF b this] show ?thesis using Inr toks
      by (simp add: parse_loop_append)
  qed
  then show ?thesis by (simp add: parse_data_str_def)
qed

text \<open>
  C4, on the strings \<^verbatim>\<open>AF3, PUSHPULL, OUTPUT\<close> and \<^verbatim>\<open>OUTPUT, PUSHPULL, AF3\<close>: both
  orders fail with \<open>ConflictingMode\<close>.
\<close>

theorem mode_and_af_conflict_witness:
  "parse_data_str ex_mcu ''AF3, PUSHPULL, OUTPUT'' False = Inl ConflictingMode \<and>
   parse_data_str ex_mcu ''OUTPUT, PUSHPULL, AF3'' False = Inl ConflictingMode"
proof -
  have r1: "upper_in_range ''AF3, PUSHPULL, OUTPUT''" by code_simp
  have r2: "upper_in_range ''OUTPUT, PUSHPULL, AF3''" by code_simp
  have s1: "split_comma ''AF3, PUSHPULL, OUTPUT'' = [''AF3'', '' PUSHPULL''] @ '' OUTPUT'' # []"
    by code_simp
  have a1: "\<forall>t\<in>set [''AF3'', '' PUSHPULL'']. accepted ex_mcu (upper (strip t))"
    by code_simp
  have b1: "(\<exists>a\<in>set [''AF3'', '' PUSHPULL'']. upper (strip a) \<in> set mode_keywords) \<and>
              take 2 (upper (strip '' OUTPUT'')) = ''AF'' \<or>
            (\<exists>a\<in>set [''AF3'', '' PUSHPULL'']. take 2 (upper (strip a)) = ''AF'') \<and>
              upper (strip '' OUTPUT'') \<in> set mode_keywords"
    by code_simp
  have s2: "split_comma ''OUTPUT, PUSHPULL, AF3'' = [''OUTPUT'', '' PUSHPULL''] @ '' AF3'' # []"
    by code_simp
  have a2: "\<forall>t\<in>set [''OUTPUT'', '' PUSHPULL'']. accepted ex_mcu (upper (strip t))"
    by code_simp
  have b2: "(\<exists>a\<in>set [''OUTPUT'', '' PUSHPULL'']. upper (strip a) \<in> set mode_keywords) \<and>
              take 2 (upper (strip '' AF3'')) = ''AF'' \<or>
            (\<exists>a\<in>set [''OUTPUT'', '' PUSHPULL'']. take 2 (upper (strip a)) = ''AF'') \<and>
              upper (strip '' AF3'') \<in> set mode_keywords"
    by code_simp
  show ?thesis
    using mode_and_af_conflict[OF r1 s1 a1 b1, of False]
      mode_and_af_conflict[OF r2 s2 a2 b2, of False]
    by simp
qed

text \<open>
  C4 as stated fails: in \<^verbatim>\<open>FOO, OUTPUT, AF3\<close> both keywords are present, and the run
  ends at the first token with the message for an invalid keyword.
\<close>

theorem unknown_keyword_before_conflict:
  "parse_data_str ex_mcu ''FOO, OUTPUT, AF3'' False = Inl (UnknownKeyword ''FOO'') \<and>
   parse_data_str ex_mcu ''FOO, OUTPUT, AF3'' False \<noteq> Inl ConflictingMode"
  by code_simp

text \<open>
  C7 (as the code has it). The source has no error of its own for a bad position. A
  token of the shape \<^verbatim>\<open>P<port><n>\<close> whose port is not a port of the profile, or whose
  number is not below \<open>pins_per_port\<close>, fails the first test of the chain and falls
  through to the last branch: unless it is one of the keywords that begin with \<open>P\<close>, the
  run ends with the message for an invalid keyword, as for any other unknown token. The
  tokens \<open>pre\<close> before it are ones that parse, and the string is one on which \<open>upper\<close> is
  Python's \<^verbatim>\<open>str.upper\<close>.
\<close>

theorem bad_position_is_unknown_keyword:
  assumes rng: "upper_in_range pin_data"
    and toks: "split_comma pin_data = pre @ tok # post"
    and pre: "parse_loop mcu pre (empty_dict, []) = Inr st"
    and shape: "upper (strip tok) = CHR ''P'' # c # rest"
    and bad: "[c] \<notin> set (ports mcu) \<or> (\<exists>n. py_int rest = Some n \<and> int (pins_per_port mcu) \<le> n)"
    and nk: "upper (strip tok) \<notin> set otype_keywords \<and> upper (strip tok) \<notin> set pupd_keywords"
  shows "parse_data_str mcu pin_data dflt = Inl (UnknownKeyword (upper (strip tok)))"
proof -
  let ?elm = "upper (strip tok)"
  have np: "is_position mcu ?elm = Inr False"
    using shape bad by (auto simp: is_position_def)
  have k: "?elm \<notin> set mode_keywords \<and> ?elm \<notin> set od_keywords \<and> ?elm \<notin> set ospeed_keywords \<and> take 2 ?elm \<noteq> ''AF''"
    using shape by (auto simp: mode_keywords_def od_keywords_def ospeed_keywords_def)
  have "parse_elm mcu ?elm st = Inl (UnknownKeyword ?elm)"
    using np k nk by (simp add: parse_elm_def Let_def)
  then have "parse_loop mcu (split_comma pin_data) (empty_dict, []) = Inl (UnknownKeyword ?elm)"
    using toks pre by (simp add: parse_loop_append)
  then show ?thesis by (simp add: parse_data_str_def)
qed

text \<open>C7, on \<^verbatim>\<open>OUTPUT, PA2\<close> for a port of two pins and on \<^verbatim>\<open>OUTPUT, PZ0\<close>.\<close>

theorem bad_position_is_unknown_keyword_witness:
  "parse_data_str ex_mcu ''OUTPUT, PA2'' False = Inl (UnknownKeyword ''PA2'') \<and>
   parse_data_str ex_mcu ''OUTPUT, PZ0'' False = Inl (UnknownKeyword ''PZ0'')"
proof -
  have g1: "upper_in_range ''OUTPUT, PA2''" by code_simp
  have g2: "upper_in_range ''OUTPUT, PZ0''" by code_simp
  have s1: "split_comma ''OUTPUT, PA2'' = [''OUTPUT''] @ '' PA2'' # []" by code_simp
  have s2: "split_comma ''OUTPUT, PZ0'' = [''OUTPUT''] @ '' PZ0'' # []" by code_simp
  have p: "parse_loop ex_mcu [''OUTPUT''] (empty_dict, []) =
             Inr (empty_dict\<lparr>d_mode := Some ''OUTPUT'', d_af := Some 0\<rparr>, [''OUTPUT''])"
    by code_simp
  have h1: "upper (strip '' PA2'') = CHR ''P'' # CHR ''A'' # ''2''" by code_simp
  have h2: "upper (strip '' PZ0'') = CHR ''P'' # CHR ''Z'' # ''0''" by code_simp
  have b1: "[CHR ''A''] \<notin> set (ports ex_mcu) \<or>
            (\<exists>n. py_int ''2'' = Some n \<and> int (pins_per_port ex_mcu) \<le> n)"
  proof -
    have "py_int ''2'' = Some 2" by code_simp
    moreover have "int (pins_per_port ex_mcu) \<le> 2" by (simp add: ex_mcu_def)
    ultimately show ?thesis by blast
  qed
  have b2: "[CHR ''Z''] \<notin> set (ports ex_mcu) \<or>
            (\<exists>n. py_int ''0'' = Some n \<and> int (pins_per_port ex_mcu) \<le> n)"
    by (simp add: ex_mcu_def)
  have k1: "upper (strip '' PA2'') \<notin> set otype_keywords \<and> upper (strip '' PA2'') \<notin> set pupd_keywords"
    by code_simp
  have k2: "upper (strip '' PZ0'') \<notin> set otype_keywords \<and> upper (strip '' PZ0'') \<notin> set pupd_keywords"
    by code_simp
  have r1: "parse_data_str ex_mcu ''OUTPUT, PA2'' False = Inl (UnknownKeyword (upper (strip '' PA2'')))"
    by (rule bad_position_is_unknown_keyword[OF g1 s1 p h1 b1 k1])
  have r2: "parse_data_str ex_mcu ''OUTPUT, PZ0'' False = Inl (UnknownKeyword (upper (strip '' PZ0'')))"
    by (rule bad_position_is_unknown_keyword[OF g2 s2 p h2 b2 k2])
  show ?thesis using r1 r2 h1 h2 by simp
qed

text \<open>
  C7 as stated fails: an index out of range and a port that the profile does not have
  end the run with the same error as the unknown word \<^verbatim>\<open>FOO\<close>, not with an error of
  their own.
\<close>

theorem bad_position_has_no_error_of_its_own:
  "parse_data_str ex_mcu ''PA2'' False = Inl (UnknownKeyword ''PA2'') \<and>
   parse_data_str ex_mcu ''PZ0'' False = Inl (UnknownKeyword ''PZ0'') \<and>
   parse_data_str ex_mcu ''FOO'' False = Inl (UnknownKeyword ''FOO'')"
  by code_simp

text \<open>
  A token that is not empty, does not begin with \<open>P\<close>, is no keyword and does not begin
  with \<open>AF\<close> reaches the last branch of the chain.
\<close>

lemma unknown_token_rejected:
  assumes "elm \<noteq> []" and "hd elm \<noteq> CHR ''P''"
    and "elm \<notin> set mode_keywords" and "elm \<notin> set od_keywords" and "elm \<notin> set otype_keywords"
    and "elm \<notin> set ospeed_keywords" and "elm \<notin> set pupd_keywords" and "take 2 elm \<noteq> ''AF''"
  shows "parse_elm mcu elm st = Inl (UnknownKeyword elm)"
proof -
  have "is_position mcu elm = Inr False"
    using assms(1,2) by (cases elm) (simp_all add: is_position_def)
  then show ?thesis using assms by (simp add: parse_elm_def Let_def)
qed

text \<open>
  C8. Every token outside the keyword families is to be rejected as an unknown keyword,
  the empty token and the tokens of one character included. The source reads
  \<^verbatim>\<open>elm[0]\<close>, and \<^verbatim>\<open>elm[1]\<close> after a \<open>P\<close>, before it knows that the token is that long:
  the empty token (as after the trailing comma of \<^verbatim>\<open>PA1, OUTPUT,\<close>) and the token \<open>P\<close>
  raise \<^verbatim>\<open>IndexError\<close>, and the run never reaches the branch that reports an invalid
  keyword.
\<close>

theorem short_token_raises_index_error:
  "parse_data_str ex_mcu ''PA1, OUTPUT,'' False = Inl IndexError \<and>
   parse_data_str ex_mcu [] False = Inl IndexError \<and>
   parse_data_str ex_mcu ''P'' False = Inl IndexError \<and>
   Pins_init ex_mcu ex_default [(''led'', ''PA1, OUTPUT,'')] = Inl IndexError"
  by code_simp

section \<open>The builder: invariants of the table\<close>

lemma collect_Inr:
  "collect rs = Inr vs \<Longrightarrow> length vs = length rs \<and> (\<forall>i<length rs. rs ! i = Inr (vs ! i))"
proof (induction rs arbitrary: vs)
  case Nil
  then show ?case by simp
next
  case (Cons r rs)
  from Cons.prems obtain v vs' where r: "r = Inr v" and c: "collect rs = Inr vs'" and vs: "vs = v # vs'"
    by (auto split: sum.splits)
  from Cons.IH[OF c] have l: "length vs' = length rs" and n: "\<forall>i<length rs. rs ! i = Inr (vs' ! i)"
    by auto
  show ?case using r vs l n by (auto simp: nth_Cons split: nat.splits)
qed

lemma init_pins_inv:
  "init_pins mcu dflt prts tbl = Inr tbl' \<Longrightarrow> tbl_inv mcu dflt decls tbl \<Longrightarrow>
   tbl_inv mcu dflt decls tbl' \<and> fst ` set tbl' = fst ` set tbl \<union> set prts"
proof (induction prts arbitrary: tbl)
  case Nil
  then show ?case by simp
next
  case (Cons prt prts)
  from Cons.prems(1) obtain row where
    c: "collect (map (default_pin dflt prt) [0..<pins_per_port mcu]) = Inr row" and
    r: "init_pins mcu dflt prts (AList.update prt row tbl) = Inr tbl'"
    by (auto split: sum.splits)
  from collect_Inr[OF c] have len: "length row = pins_per_port mcu"
    and el: "\<forall>i<pins_per_port mcu. default_pin dflt prt i = Inr (row ! i)" by auto
  have inv: "tbl_inv mcu dflt decls (AList.update prt row tbl)"
    using Cons.prems(2) len el
    by (auto simp: tbl_inv_def AList.distinct_update AList.update_conv' placed_def)
  from Cons.IH[OF r inv] show ?case by (auto simp: AList.dom_update)
qed

lemma list_assign_Inr:
  assumes "list_assign row n v = Inr row'" and "length row = pins_per_port mcu"
  shows "slot mcu n < pins_per_port mcu \<and> row' = row[slot mcu n := v]"
  using assms by (auto simp: list_assign_def slot_def Let_def split: if_splits)

lemma declare_pins_inv:
  "declare_pins mcu dflt ds st = Inr st' \<Longrightarrow> set ds \<subseteq> set decls \<Longrightarrow>
   tbl_inv mcu dflt decls (fst st) \<Longrightarrow>
   tbl_inv mcu dflt decls (fst st') \<and> fst ` set (fst st') = fst ` set (fst st)"
proof (induction ds arbitrary: st)
  case Nil
  then show ?case by simp
next
  case (Cons d ds)
  from Cons.prems(1) obtain pin row row' where
    p: "parse_pin_data mcu (fst d) (snd d) dflt = Inr pin" and
    m: "map_of (fst st) (port pin) = Some row" and
    a: "list_assign row (num pin) pin = Inr row'" and
    r: "declare_pins mcu dflt ds
          (AList.update (port pin) row' (fst st), AList.update (name pin) pin (snd st)) = Inr st'"
    by (auto split: sum.splits option.splits)
  have len: "length row = pins_per_port mcu" using Cons.prems(3) m by (simp add: tbl_inv_def)
  from list_assign_Inr[OF a len] have sl: "slot mcu (num pin) < pins_per_port mcu"
    and row': "row' = row[slot mcu (num pin) := pin]" by auto
  have din: "d \<in> set decls" using Cons.prems(2) by simp
  have tg: "targets mcu dflt d (port pin) (slot mcu (num pin))" using p by (simp add: targets_def)
  have pl: "\<forall>i<pins_per_port mcu. placed mcu dflt decls (port pin) i (row' ! i)"
  proof (intro allI impI)
    fix i assume i: "i < pins_per_port mcu"
    show "placed mcu dflt decls (port pin) i (row' ! i)"
    proof (cases "i = slot mcu (num pin)")
      case True
      then have "row' ! i = pin" using row' sl len by simp
      then show ?thesis using True p tg din by (auto simp: placed_def)
    next
      case False
      then have "row' ! i = row ! i" using row' by simp
      then show ?thesis using Cons.prems(3) m i by (simp add: tbl_inv_def)
    qed
  qed
  have inv: "tbl_inv mcu dflt decls (AList.update (port pin) row' (fst st))"
    using Cons.prems(3) pl row' len
    by (auto simp: tbl_inv_def AList.distinct_update AList.update_conv')
  have keys: "fst ` set (AList.update (port pin) row' (fst st)) = fst ` set (fst st)"
    using m by (auto simp: AList.dom_update dest: map_of_SomeD intro: rev_image_eqI)
  from Cons.IH[OF r _ ] inv keys Cons.prems(2) show ?case by simp
qed

lemma upd_key_None: "upd_key None x = x"
  by (cases x) (simp_all add: upd_key_def)

lemma upd_key_None2: "upd_key x None = x"
  by (simp add: upd_key_def)

lemma dict_okD:
  assumes "dict_ok mcu d"
  shows "opt_in (d_port d) (ports mcu)"
    and "opt_in (d_mode d) [''INPUT'', ''OUTPUT'', ''ANALOG'', ''ALTERNATE'']"
    and "opt_in (d_od d) [''LOW'', ''HIGH'']"
    and "opt_in (d_otype d) [''PUSHPULL'', ''OPENDRAIN'']"
    and "opt_in (d_ospeed d) [''VERYLOW'', ''LOW'', ''MEDIUM'', ''HIGH'']"
    and "opt_in (d_pupd d) [''FLOATING'', ''PULLUP'', ''PULLDOWN'']"
  using assms unfolding dict_ok_def by blast+

lemma default_pin_Inr:
  assumes "default_pin dflt prt i = Inr p"
  shows "name p = ''PIN'' @ str_nat i \<and> port p = prt \<and> num p = int i \<and> raw p = ''unused'' \<and>
         d_mode dflt = Some (mode p) \<and> d_od dflt = Some (od p) \<and> d_otype dflt = Some (otype p) \<and>
         d_ospeed dflt = Some (ospeed p) \<and> d_pupd dflt = Some (pupd p) \<and> d_af dflt = Some (af p)"
proof -
  let ?d = "dflt\<lparr>d_name := Some (''PIN'' @ str_nat i), d_port := Some prt,
                  d_num := Some (int i), d_raw := Some ''unused''\<rparr>"
  have mk: "mk_Pin ?d = Inr p" using assms by (simp add: default_pin_def split: if_splits)
  then have c: "complete_dict ?d" by (simp add: mk_Pin_def split: if_splits)
  have p: "p = \<lparr>name = the (d_name ?d), port = the (d_port ?d), num = the (d_num ?d),
                mode = the (d_mode ?d), od = the (d_od ?d), otype = the (d_otype ?d),
                ospeed = the (d_ospeed ?d), pupd = the (d_pupd ?d), af = the (d_af ?d),
                raw = the (d_raw ?d)\<rparr>"
    using mk c by (simp add: mk_Pin_def)
  show ?thesis using c by (simp add: p complete_dict_def)
qed

lemma default_pin_attrs_ok:
  assumes "default_pin dflt prt i = Inr p" and "dict_ok mcu dflt"
  shows "attrs_ok p"
proof -
  note a = dict_okD[OF assms(2)] and b = default_pin_Inr[OF assms(1)]
  have "mode p \<in> set [''INPUT'', ''OUTPUT'', ''ANALOG'', ''ALTERNATE'']"
    using a(2) b by (simp add: opt_in_def)
  moreover have "od p \<in> set [''LOW'', ''HIGH'']"
    using a(3) b by (simp add: opt_in_def)
  moreover have "otype p \<in> set [''PUSHPULL'', ''OPENDRAIN'']"
    using a(4) b by (simp add: opt_in_def)
  moreover have "ospeed p \<in> set [''VERYLOW'', ''LOW'', ''MEDIUM'', ''HIGH'']"
    using a(5) b by (simp add: opt_in_def)
  moreover have "pupd p \<in> set [''FLOATING'', ''PULLUP'', ''PULLDOWN'']"
    using a(6) b by (simp add: opt_in_def)
  ultimately show ?thesis unfolding attrs_ok_def by blast
qed

lemma parse_pin_data_Inr:
  assumes "parse_pin_data mcu nm s dflt = Inr p" and dn: "d_name dflt = None"
  shows "\<exists>data rw. parse_data_str mcu s False = Inr (data, rw) \<and>
           name p = upper nm \<and> raw p = lower (join '', '' rw) \<and>
           Some (port p) = upd_key (d_port dflt) (d_port data) \<and>
           Some (num p) = upd_key (d_num dflt) (d_num data) \<and>
           Some (mode p) = upd_key (d_mode dflt) (d_mode data) \<and>
           Some (od p) = upd_key (d_od dflt) (d_od data) \<and>
           Some (otype p) = upd_key (d_otype dflt) (d_otype data) \<and>
           Some (ospeed p) = upd_key (d_ospeed dflt) (d_ospeed data) \<and>
           Some (pupd p) = upd_key (d_pupd dflt) (d_pupd data) \<and>
           Some (af p) = upd_key (d_af dflt) (d_af data)"
proof (cases "parse_data_str mcu s False")
  case (Inl e)
  then show ?thesis using assms(1) by (simp add: parse_pin_data_def)
next
  case (Inr r)
  obtain data rw where r: "r = (data, rw)" by (cases r)
  have ok: "dict_ok mcu data" using parse_data_str_dict_ok Inr r by simp
  then have n: "d_name data = None" by (simp add: dict_ok_def)
  let ?d = "(dict_update (dict_update (empty_dict\<lparr>d_name := Some (upper nm)\<rparr>) dflt) data)
              \<lparr>d_raw := Some (lower (join '', '' rw))\<rparr>"
  have mk: "mk_Pin ?d = Inr p" using assms(1) Inr r by (simp add: parse_pin_data_def Let_def)
  then have c: "complete_dict ?d" by (simp add: mk_Pin_def split: if_splits)
  have p: "p = \<lparr>name = the (d_name ?d), port = the (d_port ?d), num = the (d_num ?d),
                mode = the (d_mode ?d), od = the (d_od ?d), otype = the (d_otype ?d),
                ospeed = the (d_ospeed ?d), pupd = the (d_pupd ?d), af = the (d_af ?d),
                raw = the (d_raw ?d)\<rparr>"
    using mk c by (simp add: mk_Pin_def)
  have d: "d_name ?d = Some (upper nm)" "d_raw ?d = Some (lower (join '', '' rw))"
    "d_port ?d = upd_key (d_port dflt) (d_port data)"
    "d_num ?d = upd_key (d_num dflt) (d_num data)"
    "d_mode ?d = upd_key (d_mode dflt) (d_mode data)"
    "d_od ?d = upd_key (d_od dflt) (d_od data)"
    "d_otype ?d = upd_key (d_otype dflt) (d_otype data)"
    "d_ospeed ?d = upd_key (d_ospeed dflt) (d_ospeed data)"
    "d_pupd ?d = upd_key (d_pupd dflt) (d_pupd data)"
    "d_af ?d = upd_key (d_af dflt) (d_af data)"
    using n dn by (simp_all add: dict_update_def empty_dict_def upd_key_None upd_key_None2)
  have ne: "d_port ?d \<noteq> None" "d_num ?d \<noteq> None" "d_mode ?d \<noteq> None" "d_od ?d \<noteq> None"
    "d_otype ?d \<noteq> None" "d_ospeed ?d \<noteq> None" "d_pupd ?d \<noteq> None" "d_af ?d \<noteq> None"
    using c unfolding complete_dict_def by blast+
  have sel: "name p = the (d_name ?d)" "raw p = the (d_raw ?d)" "port p = the (d_port ?d)"
    "num p = the (d_num ?d)" "mode p = the (d_mode ?d)" "od p = the (d_od ?d)"
    "otype p = the (d_otype ?d)" "ospeed p = the (d_ospeed ?d)" "pupd p = the (d_pupd ?d)"
    "af p = the (d_af ?d)"
    by (subst p, simp)+
  have nm: "name p = upper nm" using sel(1) d(1) by simp
  have rw: "raw p = lower (join '', '' rw)" using sel(2) d(2) by simp
  have f1: "Some (port p) = upd_key (d_port dflt) (d_port data)" using sel(3) ne(1) d(3) by simp
  have f2: "Some (num p) = upd_key (d_num dflt) (d_num data)" using sel(4) ne(2) d(4) by simp
  have f3: "Some (mode p) = upd_key (d_mode dflt) (d_mode data)" using sel(5) ne(3) d(5) by simp
  have f4: "Some (od p) = upd_key (d_od dflt) (d_od data)" using sel(6) ne(4) d(6) by simp
  have f5: "Some (otype p) = upd_key (d_otype dflt) (d_otype data)" using sel(7) ne(5) d(7) by simp
  have f6: "Some (ospeed p) = upd_key (d_ospeed dflt) (d_ospeed data)" using sel(8) ne(6) d(8) by simp
  have f7: "Some (pupd p) = upd_key (d_pupd dflt) (d_pupd data)" using sel(9) ne(7) d(9) by simp
  have f8: "Some (af p) = upd_key (d_af dflt) (d_af data)" using sel(10) ne(8) d(10) by simp
  have rest: "raw p = lower (join '', '' rw) \<and>
           Some (port p) = upd_key (d_port dflt) (d_port data) \<and>
           Some (num p) = upd_key (d_num dflt) (d_num data) \<and>
           Some (mode p) = upd_key (d_mode dflt) (d_mode data) \<and>
           Some (od p) = upd_key (d_od dflt) (d_od data) \<and>
           Some (otype p) = upd_key (d_otype dflt) (d_otype data) \<and>
           Some (ospeed p) = upd_key (d_ospeed dflt) (d_ospeed data) \<and>
           Some (pupd p) = upd_key (d_pupd dflt) (d_pupd data) \<and>
           Some (af p) = upd_key (d_af dflt) (d_af data)"
    using rw f1 f2 f3 f4 f5 f6 f7 f8 by blast
  show ?thesis using Inr r nm rest by blast
qed

lemma opt_in_Some: "Some x = upd_key a b \<Longrightarrow> opt_in a xs \<Longrightarrow> opt_in b xs \<Longrightarrow> x \<in> set xs"
  by (auto simp: upd_key_def opt_in_def split: option.splits)

lemma parse_pin_data_attrs_ok:
  assumes "parse_pin_data mcu nm s dflt = Inr p" and "dict_ok mcu dflt"
  shows "attrs_ok p \<and> port p \<in> set (ports mcu)"
proof -
  have "d_name dflt = None" using assms(2) by (simp add: dict_ok_def)
  from parse_pin_data_Inr[OF assms(1) this] obtain data rw where
    d: "parse_data_str mcu s False = Inr (data, rw)" and
    f: "Some (port p) = upd_key (d_port dflt) (d_port data)"
       "Some (mode p) = upd_key (d_mode dflt) (d_mode data)"
       "Some (od p) = upd_key (d_od dflt) (d_od data)"
       "Some (otype p) = upd_key (d_otype dflt) (d_otype data)"
       "Some (ospeed p) = upd_key (d_ospeed dflt) (d_ospeed data)"
       "Some (pupd p) = upd_key (d_pupd dflt) (d_pupd data)"
    by blast
  have ok: "dict_ok mcu data" using parse_data_str_dict_ok[OF d] .
  note a = dict_okD[OF assms(2)] and b = dict_okD[OF ok]
  have "port p \<in> set (ports mcu)"
    using opt_in_Some[OF f(1)] a b by blast
  moreover have "mode p \<in> set [''INPUT'', ''OUTPUT'', ''ANALOG'', ''ALTERNATE'']"
    using opt_in_Some[OF f(2)] a b by blast
  moreover have "od p \<in> set [''LOW'', ''HIGH'']"
    using opt_in_Some[OF f(3)] a b by blast
  moreover have "otype p \<in> set [''PUSHPULL'', ''OPENDRAIN'']"
    using opt_in_Some[OF f(4)] a b by blast
  moreover have "ospeed p \<in> set [''VERYLOW'', ''LOW'', ''MEDIUM'', ''HIGH'']"
    using opt_in_Some[OF f(5)] a b by blast
  moreover have "pupd p \<in> set [''FLOATING'', ''PULLUP'', ''PULLDOWN'']"
    using opt_in_Some[OF f(6)] a b by blast
  ultimately show ?thesis unfolding attrs_ok_def by blast
qed

lemma placed_props:
  assumes "placed mcu dflt decls prt i p" and "dict_ok mcu dflt" and "i < pins_per_port mcu"
  shows "port p = prt \<and> slot mcu (num p) = i \<and> attrs_ok p"
proof (cases "default_pin dflt prt i = Inr p")
  case True
  from default_pin_Inr[OF True] default_pin_attrs_ok[OF True assms(2)] show ?thesis
    by (simp add: slot_def)
next
  case False
  then obtain decl where "decl \<in> set decls"
    and p: "parse_pin_data mcu (fst decl) (snd decl) dflt = Inr p"
    and t: "targets mcu dflt decl prt i"
    using assms(1) by (auto simp: placed_def)
  from t p have "port p = prt \<and> slot mcu (num p) = i" by (simp add: targets_def)
  then show ?thesis using parse_pin_data_attrs_ok[OF p assms(2)] by simp
qed

lemma placed_untargeted:
  "placed mcu dflt decls prt i p \<Longrightarrow> \<forall>decl\<in>set decls. \<not> targets mcu dflt decl prt i \<Longrightarrow>
   default_pin dflt prt i = Inr p"
  by (auto simp: placed_def)

lemma Pins_init_Inr:
  assumes "Pins_init mcu default_str decls = Inr P"
  shows "\<exists>dflt rw tbl st. parse_data_str mcu default_str True = Inr (dflt, rw) \<and>
           init_pins mcu dflt (ports mcu) [] = Inr tbl \<and>
           declare_pins mcu dflt decls (tbl, []) = Inr st \<and>
           P = \<lparr>self_mcu = mcu, self_pins = fst st, self_pins_by_name = snd st\<rparr>"
  using assms by (auto simp: Pins_init_def split: sum.splits prod.splits)

lemma Pins_init_tbl_inv:
  assumes "Pins_init mcu default_str decls = Inr P"
    and "parse_data_str mcu default_str True = Inr (dflt, rw)"
  shows "tbl_inv mcu dflt decls (self_pins P) \<and> fst ` set (self_pins P) = set (ports mcu)"
proof -
  from Pins_init_Inr[OF assms(1)] assms(2) obtain tbl st where
    i: "init_pins mcu dflt (ports mcu) [] = Inr tbl" and
    d: "declare_pins mcu dflt decls (tbl, []) = Inr st" and
    P: "P = \<lparr>self_mcu = mcu, self_pins = fst st, self_pins_by_name = snd st\<rparr>"
    by auto
  have e: "tbl_inv mcu dflt decls []" by (simp add: tbl_inv_def)
  from init_pins_inv[OF i e] have t: "tbl_inv mcu dflt decls tbl" and k: "fst ` set tbl = set (ports mcu)"
    by auto
  have "tbl_inv mcu dflt decls (fst (tbl, []::(string \<times> Pin) list))" using t by simp
  from declare_pins_inv[OF d subset_refl this] k show ?thesis using P by simp
qed

lemma sum_list_const: "\<forall>x\<in>set xs. f x = (c::nat) \<Longrightarrow> sum_list (map f xs) = length xs * c"
  by (induction xs) auto

text \<open>
  C5. After a successful build the table has one row for each port of the profile and
  \<open>pins_per_port\<close> records in each row, so \<open>|ports| \<times> pins_per_port\<close> records in all,
  one at each (port, index). Every record carries the port of its row and a number that
  addresses its own position (\<^const>\<open>slot\<close>), and each of its five electrical attributes
  has one of the values of the data model; \<open>name\<close>, \<open>af\<close> and \<open>raw\<close> have a value since the
  named tuple cannot be built without one. A position that no declaration targets holds
  the placeholder built from the default, named \<open>PIN<index>\<close>.
\<close>

theorem pin_table_complete:
  assumes "Pins_init mcu default_str decls = Inr P"
  shows "\<exists>dflt rw. parse_data_str mcu default_str True = Inr (dflt, rw) \<and>
     distinct (map fst (self_pins P)) \<and>
     set (map fst (self_pins P)) = set (ports mcu) \<and>
     sum_list (map (\<lambda>kv. length (snd kv)) (self_pins P)) = card (set (ports mcu)) * pins_per_port mcu \<and>
     (\<forall>prt\<in>set (ports mcu). \<exists>row. map_of (self_pins P) prt = Some row \<and>
        length row = pins_per_port mcu \<and>
        (\<forall>i<pins_per_port mcu.
           port (row ! i) = prt \<and> slot mcu (num (row ! i)) = i \<and> attrs_ok (row ! i) \<and>
           ((\<forall>decl\<in>set decls. \<not> targets mcu dflt decl prt i) \<longrightarrow>
              default_pin dflt prt i = Inr (row ! i) \<and> name (row ! i) = ''PIN'' @ str_nat i)))"
proof -
  from Pins_init_Inr[OF assms] obtain dflt rw where
    d: "parse_data_str mcu default_str True = Inr (dflt, rw)" by blast
  have ok: "dict_ok mcu dflt" using parse_data_str_dict_ok[OF d] .
  from Pins_init_tbl_inv[OF assms d] have inv: "tbl_inv mcu dflt decls (self_pins P)"
    and keys: "fst ` set (self_pins P) = set (ports mcu)" by auto
  have dist: "distinct (map fst (self_pins P))" using inv by (simp add: tbl_inv_def)
  have rows: "\<forall>kv\<in>set (self_pins P). length (snd kv) = pins_per_port mcu"
  proof
    fix kv assume "kv \<in> set (self_pins P)"
    then have "map_of (self_pins P) (fst kv) = Some (snd kv)" using dist by simp
    then show "length (snd kv) = pins_per_port mcu" using inv unfolding tbl_inv_def by blast
  qed
  have "length (self_pins P) = card (set (ports mcu))"
    using dist keys by (metis distinct_card length_map set_map)
  then have cnt: "sum_list (map (\<lambda>kv. length (snd kv)) (self_pins P)) = card (set (ports mcu)) * pins_per_port mcu"
    using sum_list_const[OF rows] by simp
  have each: "\<forall>prt\<in>set (ports mcu). \<exists>row. map_of (self_pins P) prt = Some row \<and>
        length row = pins_per_port mcu \<and>
        (\<forall>i<pins_per_port mcu.
           port (row ! i) = prt \<and> slot mcu (num (row ! i)) = i \<and> attrs_ok (row ! i) \<and>
           ((\<forall>decl\<in>set decls. \<not> targets mcu dflt decl prt i) \<longrightarrow>
              default_pin dflt prt i = Inr (row ! i) \<and> name (row ! i) = ''PIN'' @ str_nat i))"
  proof
    fix prt assume "prt \<in> set (ports mcu)"
    then have "prt \<in> fst ` set (self_pins P)" using keys by simp
    then obtain row where m: "map_of (self_pins P) prt = Some row"
      by (metis domD dom_map_of_conv_image_fst)
    then have len: "length row = pins_per_port mcu"
      and pl: "\<forall>i<pins_per_port mcu. placed mcu dflt decls prt i (row ! i)"
      using inv by (auto simp: tbl_inv_def)
    have "\<forall>i<pins_per_port mcu.
           port (row ! i) = prt \<and> slot mcu (num (row ! i)) = i \<and> attrs_ok (row ! i) \<and>
           ((\<forall>decl\<in>set decls. \<not> targets mcu dflt decl prt i) \<longrightarrow>
              default_pin dflt prt i = Inr (row ! i) \<and> name (row ! i) = ''PIN'' @ str_nat i)"
    proof (intro allI impI)
      fix i assume i: "i < pins_per_port mcu"
      then have p: "placed mcu dflt decls prt i (row ! i)" using pl by simp
      from placed_props[OF p ok i] placed_untargeted[OF p] default_pin_Inr
      show "port (row ! i) = prt \<and> slot mcu (num (row ! i)) = i \<and> attrs_ok (row ! i) \<and>
           ((\<forall>decl\<in>set decls. \<not> targets mcu dflt decl prt i) \<longrightarrow>
              default_pin dflt prt i = Inr (row ! i) \<and> name (row ! i) = ''PIN'' @ str_nat i)"
        by blast
    qed
    then show "\<exists>row. map_of (self_pins P) prt = Some row \<and>
        length row = pins_per_port mcu \<and>
        (\<forall>i<pins_per_port mcu.
           port (row ! i) = prt \<and> slot mcu (num (row ! i)) = i \<and> attrs_ok (row ! i) \<and>
           ((\<forall>decl\<in>set decls. \<not> targets mcu dflt decl prt i) \<longrightarrow>
              default_pin dflt prt i = Inr (row ! i) \<and> name (row ! i) = ''PIN'' @ str_nat i))"
      using m len by blast
  qed
  show ?thesis using d dist keys cnt each by auto
qed

text \<open>C5, on the example board: one port of two pins, two records.\<close>

theorem pin_table_complete_witness:
  "Pins_init ex_mcu ex_default ex_decls = Inr ex_pins \<and>
   distinct (map fst (self_pins ex_pins)) \<and>
   sum_list (map (\<lambda>kv. length (snd kv)) (self_pins ex_pins)) =
     card (set (ports ex_mcu)) * pins_per_port ex_mcu"
proof -
  have h: "Pins_init ex_mcu ex_default ex_decls = Inr ex_pins" by code_simp
  from pin_table_complete[OF h] show ?thesis using h by blast
qed

lemma declare_pins_append:
  "declare_pins mcu dflt (xs @ ys) st =
     (case declare_pins mcu dflt xs st of Inl e \<Rightarrow> Inl e | Inr st' \<Rightarrow> declare_pins mcu dflt ys st')"
  by (induction xs arbitrary: st) (auto split: sum.splits option.splits)

lemma declare_pins_step:
  assumes "declare_pins mcu dflt (d # ds) st = Inr st'"
  shows "\<exists>pin row row'. parse_pin_data mcu (fst d) (snd d) dflt = Inr pin \<and>
           map_of (fst st) (port pin) = Some row \<and>
           list_assign row (num pin) pin = Inr row' \<and>
           declare_pins mcu dflt ds
             (AList.update (port pin) row' (fst st), AList.update (name pin) pin (snd st)) = Inr st'"
  using assms by (auto split: sum.splits option.splits)

text \<open>A build that succeeds has parsed every declaration, and a default has no position.\<close>

lemma declare_pins_all_parsed:
  "declare_pins mcu dflt ds st = Inr st' \<Longrightarrow> d \<in> set ds \<Longrightarrow>
   \<exists>pin. parse_pin_data mcu (fst d) (snd d) dflt = Inr pin"
proof (induction ds arbitrary: st)
  case Nil
  then show ?case by simp
next
  case (Cons x ds)
  from declare_pins_step[OF Cons.prems(1)] obtain pin row row' where
    p: "parse_pin_data mcu (fst x) (snd x) dflt = Inr pin" and
    r: "declare_pins mcu dflt ds
          (AList.update (port pin) row' (fst st), AList.update (name pin) pin (snd st)) = Inr st'"
    by blast
  show ?case
  proof (cases "d = x")
    case True
    then show ?thesis using p by blast
  next
    case False
    then have "d \<in> set ds" using Cons.prems(2) by simp
    from Cons.IH[OF r this] show ?thesis .
  qed
qed

lemma default_has_no_port:
  assumes "parse_data_str mcu s True = Inr (dflt, rw)"
  shows "d_port dflt = None"
proof -
  from assms have "default_check_data dflt = None"
    by (auto simp: parse_data_str_def split: sum.splits option.splits prod.splits)
  then show ?thesis by (simp add: default_check_data_def split: if_splits)
qed

text \<open>
  C3 (as the code has it). The source never reads a position from the name of a pin.
  When no token of the attribute string is a position token, the dictionary of the pin
  has no \<open>port\<close> and no \<open>num\<close> (the default has none either), the constructor of the
  named tuple raises \<^verbatim>\<open>TypeError\<close>, and the build fails; a string that does not parse
  fails with the error of the parser.
\<close>

theorem pin_without_position_fails:
  assumes "(nm, pin_data) \<in> set decls"
    and "\<forall>t\<in>set (split_comma pin_data). is_position mcu (upper (strip t)) \<noteq> Inr True"
  shows "(\<exists>e. Pins_init mcu default_str decls = Inl e) \<and>
         (\<forall>dflt. d_port dflt = None \<longrightarrow>
            parse_pin_data mcu nm pin_data dflt =
              (case parse_data_str mcu pin_data False of Inl e \<Rightarrow> Inl e | Inr r \<Rightarrow> Inl TypeError))"
proof -
  have b: "\<forall>dflt. d_port dflt = None \<longrightarrow>
            parse_pin_data mcu nm pin_data dflt =
              (case parse_data_str mcu pin_data False of Inl e \<Rightarrow> Inl e | Inr r \<Rightarrow> Inl TypeError)"
    using parse_pin_data_no_position[OF assms(2)] by blast
  have a: "\<exists>e. Pins_init mcu default_str decls = Inl e"
  proof (cases "Pins_init mcu default_str decls")
    case (Inl e)
    then show ?thesis by blast
  next
    case (Inr P)
    from Pins_init_Inr[OF Inr] obtain dflt rw tbl st where
      d: "parse_data_str mcu default_str True = Inr (dflt, rw)" and
      dp: "declare_pins mcu dflt decls (tbl, []) = Inr st" by blast
    from declare_pins_all_parsed[OF dp assms(1)] obtain pin where
      "parse_pin_data mcu nm pin_data dflt = Inr pin" by auto
    moreover have "parse_pin_data mcu nm pin_data dflt =
        (case parse_data_str mcu pin_data False of Inl e \<Rightarrow> Inl e | Inr r \<Rightarrow> Inl TypeError)"
      using b default_has_no_port[OF d] by blast
    ultimately show ?thesis by (auto split: sum.splits)
  qed
  show ?thesis using a b by blast
qed

text \<open>C3, on a pin \<^verbatim>\<open>led\<close> declared as \<^verbatim>\<open>INPUT, PULLUP\<close>.\<close>

theorem pin_without_position_fails_witness:
  "(\<exists>e. Pins_init ex_mcu ex_default [(''led'', ''INPUT, PULLUP'')] = Inl e) \<and>
   parse_pin_data ex_mcu ''led'' ''INPUT, PULLUP'' ex_dflt = Inl TypeError"
proof -
  have m: "(''led'', ''INPUT, PULLUP'') \<in> set [(''led'', ''INPUT, PULLUP'')]" by simp
  have n: "\<forall>t\<in>set (split_comma ''INPUT, PULLUP''). is_position ex_mcu (upper (strip t)) \<noteq> Inr True"
    by code_simp
  have d: "d_port ex_dflt = None" by (simp add: ex_dflt_def)
  have p: "parse_data_str ex_mcu ''INPUT, PULLUP'' False =
             Inr (empty_dict\<lparr>d_mode := Some ''INPUT'', d_af := Some 0, d_pupd := Some ''PULLUP''\<rparr>,
                  [''INPUT'', ''PULLUP''])"
    by code_simp
  from pin_without_position_fails[OF m n, of ex_default] d p show ?thesis by simp
qed

text \<open>
  C3 as stated fails: the pin named \<^verbatim>\<open>PA1\<close> and declared as \<^verbatim>\<open>OUTPUT\<close> is not written
  to index 1 of port A; the build ends with \<^verbatim>\<open>TypeError\<close>.
\<close>

theorem position_in_name_is_not_used:
  "Pins_init ex_mcu ex_default [(''PA1'', ''OUTPUT'')] = Inl TypeError"
  by code_simp

lemma declare_pins_untouched:
  "declare_pins mcu dflt ds st = Inr st' \<Longrightarrow> tbl_inv mcu dflt decls (fst st) \<Longrightarrow>
   set ds \<subseteq> set decls \<Longrightarrow> \<forall>d\<in>set ds. \<not> targets mcu dflt d prt i \<Longrightarrow>
   map_of (fst st) prt = Some row \<Longrightarrow>
   \<exists>row'. map_of (fst st') prt = Some row' \<and> row' ! i = row ! i"
proof (induction ds arbitrary: st row)
  case Nil
  then show ?case by simp
next
  case (Cons d ds)
  from declare_pins_step[OF Cons.prems(1)] obtain pin r r' where
    p: "parse_pin_data mcu (fst d) (snd d) dflt = Inr pin" and
    m: "map_of (fst st) (port pin) = Some r" and
    a: "list_assign r (num pin) pin = Inr r'" and
    rest: "declare_pins mcu dflt ds
          (AList.update (port pin) r' (fst st), AList.update (name pin) pin (snd st)) = Inr st'"
    by blast
  let ?st1 = "(AList.update (port pin) r' (fst st), AList.update (name pin) pin (snd st))"
  have one: "declare_pins mcu dflt [d] st = Inr ?st1" using p m a by simp
  have "set [d] \<subseteq> set decls" using Cons.prems(3) by simp
  from declare_pins_inv[OF one this Cons.prems(2)] have inv1: "tbl_inv mcu dflt decls (fst ?st1)" by simp
  have len: "length r = pins_per_port mcu" using Cons.prems(2) m by (simp add: tbl_inv_def)
  from list_assign_Inr[OF a len] have r': "r' = r[slot mcu (num pin) := pin]" by simp
  have nt: "\<not> (port pin = prt \<and> slot mcu (num pin) = i)"
    using Cons.prems(4) p by (simp add: targets_def)
  have "\<exists>row1. map_of (fst ?st1) prt = Some row1 \<and> row1 ! i = row ! i"
  proof (cases "port pin = prt")
    case True
    then have "r = row" using m Cons.prems(5) by simp
    moreover have "slot mcu (num pin) \<noteq> i" using nt True by simp
    ultimately show ?thesis using True r' by (simp add: AList.update_conv')
  next
    case False
    then show ?thesis using Cons.prems(5) by (simp add: AList.update_conv')
  qed
  then obtain row1 where m1: "map_of (fst ?st1) prt = Some row1" and e1: "row1 ! i = row ! i" by blast
  have "\<exists>row'. map_of (fst st') prt = Some row' \<and> row' ! i = row1 ! i"
    using Cons.IH[OF rest inv1 _ _ m1] Cons.prems(3,4) by simp
  then show ?case using e1 by simp
qed

lemma last_declaration_wins:
  assumes build: "Pins_init mcu default_str (ds1 @ d # ds3) = Inr P"
    and dflt: "parse_data_str mcu default_str True = Inr (dflt, rw)"
    and p: "parse_pin_data mcu (fst d) (snd d) dflt = Inr pin"
    and last: "\<forall>x\<in>set ds3. \<not> targets mcu dflt x (port pin) (slot mcu (num pin))"
  shows "\<exists>row. map_of (self_pins P) (port pin) = Some row \<and> row ! slot mcu (num pin) = pin"
proof -
  let ?decls = "ds1 @ d # ds3"
  from Pins_init_Inr[OF build] dflt obtain tbl st where
    i: "init_pins mcu dflt (ports mcu) [] = Inr tbl" and
    dp: "declare_pins mcu dflt ?decls (tbl, []) = Inr st" and
    P: "P = \<lparr>self_mcu = mcu, self_pins = fst st, self_pins_by_name = snd st\<rparr>"
    by auto
  have e: "tbl_inv mcu dflt ?decls []" by (simp add: tbl_inv_def)
  from init_pins_inv[OF i e] have t0: "tbl_inv mcu dflt ?decls (fst (tbl, []::(string \<times> Pin) list))" by simp
  from dp obtain st1 where
    a: "declare_pins mcu dflt ds1 (tbl, []) = Inr st1" and
    b: "declare_pins mcu dflt (d # ds3) st1 = Inr st"
    by (auto simp: declare_pins_append split: sum.splits)
  have s1: "set ds1 \<subseteq> set ?decls" by auto
  from declare_pins_inv[OF a s1 t0] have t1: "tbl_inv mcu dflt ?decls (fst st1)" by simp
  from declare_pins_step[OF b] p obtain r r' where
    m: "map_of (fst st1) (port pin) = Some r" and
    la: "list_assign r (num pin) pin = Inr r'" and
    rest: "declare_pins mcu dflt ds3
          (AList.update (port pin) r' (fst st1), AList.update (name pin) pin (snd st1)) = Inr st"
    by auto
  let ?st2 = "(AList.update (port pin) r' (fst st1), AList.update (name pin) pin (snd st1))"
  have one: "declare_pins mcu dflt [d] st1 = Inr ?st2" using p m la by simp
  have "set [d] \<subseteq> set ?decls" by simp
  from declare_pins_inv[OF one this t1] have t2: "tbl_inv mcu dflt ?decls (fst ?st2)" by simp
  have len: "length r = pins_per_port mcu" using t1 m by (simp add: tbl_inv_def)
  from list_assign_Inr[OF la len] have sl: "slot mcu (num pin) < pins_per_port mcu"
    and r': "r' = r[slot mcu (num pin) := pin]" by auto
  have m2: "map_of (fst ?st2) (port pin) = Some r'" by (simp add: AList.update_conv')
  have s3: "set ds3 \<subseteq> set ?decls" by auto
  from declare_pins_untouched[OF rest t2 s3 last m2] obtain row where
    "map_of (fst st) (port pin) = Some row" "row ! slot mcu (num pin) = r' ! slot mcu (num pin)"
    by blast
  moreover have "r' ! slot mcu (num pin) = pin" using r' sl len by simp
  ultimately show ?thesis using P by simp
qed

text \<open>
  C6. Two declarations target the same port and the same number; no declaration after
  the later one targets that position. Then the record at the position is the record
  \<open>p2\<close> of the later declaration, which is computed from that declaration and the
  default alone: nothing of the earlier record \<open>p1\<close> is left.
\<close>

theorem later_declaration_determines_record:
  assumes "Pins_init mcu default_str (ds1 @ (n1, s1) # ds2 @ (n2, s2) # ds3) = Inr P"
    and "parse_data_str mcu default_str True = Inr (dflt, rw)"
    and "parse_pin_data mcu n1 s1 dflt = Inr p1"
    and "parse_pin_data mcu n2 s2 dflt = Inr p2"
    and "port p1 = port p2" and "num p1 = num p2"
    and "\<forall>x\<in>set ds3. \<not> targets mcu dflt x (port p2) (slot mcu (num p2))"
  shows "\<exists>row. map_of (self_pins P) (port p1) = Some row \<and> row ! slot mcu (num p1) = p2"
proof -
  have "Pins_init mcu default_str ((ds1 @ (n1, s1) # ds2) @ (n2, s2) # ds3) = Inr P"
    using assms(1) by simp
  from last_declaration_wins[OF this assms(2), of p2] assms(4,7)
  have "\<exists>row. map_of (self_pins P) (port p2) = Some row \<and> row ! slot mcu (num p2) = p2" by simp
  then show ?thesis using assms(5,6) by simp
qed

text \<open>C6, on the example board: \<^verbatim>\<open>led\<close> and \<^verbatim>\<open>btn\<close> are both declared at \<^verbatim>\<open>PA1\<close>.\<close>

theorem later_declaration_determines_record_witness:
  "Pins_init ex_mcu ex_default ex_decls = Inr ex_pins \<and>
   parse_pin_data ex_mcu ''led'' ''PA1, AF3'' ex_dflt = Inr ex_led \<and>
   parse_pin_data ex_mcu ''btn'' ''PA1, INPUT, PULLUP'' ex_dflt = Inr ex_btn \<and>
   (\<exists>row. map_of (self_pins ex_pins) (port ex_led) = Some row \<and>
      row ! slot ex_mcu (num ex_led) = ex_btn)"
proof -
  have b: "Pins_init ex_mcu ex_default
             ([] @ (''led'', ''PA1, AF3'') # [] @ (''btn'', ''PA1, INPUT, PULLUP'') # []) = Inr ex_pins"
    by code_simp
  have d: "parse_data_str ex_mcu ex_default True =
             Inr (ex_dflt, [''OUTPUT'', ''STARTLOW'', ''PUSHPULL'', ''HIGHSPEED'', ''FLOATING''])"
    by code_simp
  have p1: "parse_pin_data ex_mcu ''led'' ''PA1, AF3'' ex_dflt = Inr ex_led" by code_simp
  have p2: "parse_pin_data ex_mcu ''btn'' ''PA1, INPUT, PULLUP'' ex_dflt = Inr ex_btn" by code_simp
  have e1: "port ex_led = port ex_btn" by (simp add: ex_led_def ex_btn_def ex_pin_def)
  have e2: "num ex_led = num ex_btn" by (simp add: ex_led_def ex_btn_def ex_pin_def)
  have l: "\<forall>x\<in>set []. \<not> targets ex_mcu ex_dflt x (port ex_btn) (slot ex_mcu (num ex_btn))" by simp
  have i: "Pins_init ex_mcu ex_default ex_decls = Inr ex_pins" using b by (simp add: ex_decls_def)
  from later_declaration_determines_record[OF b d p1 p2 e1 e2 l] show ?thesis
    using i p1 p2 by blast
qed

section \<open>The emitter\<close>











lemma filter_take_index:
  assumes "\<forall>i<length xs. P (xs ! i) \<longleftrightarrow> i < n"
  shows "filter P xs = take n xs \<and> filter (\<lambda>x. \<not> P x) xs = drop n xs"
proof -
  have a: "\<forall>x\<in>set (take n xs). P x"
  proof
    fix x assume "x \<in> set (take n xs)"
    then obtain i where "i < length (take n xs)" "take n xs ! i = x" by (metis in_set_conv_nth)
    then show "P x" using assms by auto
  qed
  have b: "\<forall>x\<in>set (drop n xs). \<not> P x"
  proof
    fix x assume "x \<in> set (drop n xs)"
    then obtain i where i: "i < length (drop n xs)" "drop n xs ! i = x" by (metis in_set_conv_nth)
    then have "n + i < length xs" "xs ! (n + i) = x" by auto
    then show "\<not> P x" using assms by auto
  qed
  have "filter P xs = filter P (take n xs) @ filter P (drop n xs)"
    by (metis append_take_drop_id filter_append)
  moreover have "filter (\<lambda>x. \<not> P x) xs = filter (\<lambda>x. \<not> P x) (take n xs) @ filter (\<lambda>x. \<not> P x) (drop n xs)"
    by (metis append_take_drop_id filter_append)
  ultimately show ?thesis using a b by (simp add: filter_empty_conv filter_id_conv)
qed

text \<open>
  When every record of a row carries its own index, the low expression has the terms of
  the first eight pins and the high expression those of the rest, in the order of the
  row; a table built from declarations without a negative number has such rows.
\<close>

lemma af_terms_by_index:
  assumes "\<forall>i<length row. num (row ! i) = int i"
  shows "afrl_terms prt row = map (af_term prt) (take 8 row) \<and>
         afrh_terms prt row = map (af_term prt) (drop 8 row)"
proof -
  have "\<forall>i<length row. (num (row ! i) < 8) \<longleftrightarrow> i < 8" using assms by auto
  from filter_take_index[OF this]
  have "filter (\<lambda>pin. num pin < 8) row = take 8 row" "filter (\<lambda>pin. \<not> num pin < 8) row = drop 8 row"
    by auto
  moreover have "(\<lambda>pin. \<not> num pin < 8) = (\<lambda>pin::Pin. num pin \<ge> 8)" by auto
  ultimately show ?thesis by (simp add: afrl_terms_def afrh_terms_def)
qed

lemma built_af_terms:
  assumes "Pins_init mcu default_str decls = Inr P"
    and "map_of (self_pins P) prt = Some row"
    and "\<forall>pin\<in>set row. 0 \<le> num pin"
  shows "afrl_terms prt row = map (af_term prt) (take 8 row) \<and>
         afrh_terms prt row = map (af_term prt) (drop 8 row)"
proof -
  from Pins_init_Inr[OF assms(1)] obtain dflt rw where
    d: "parse_data_str mcu default_str True = Inr (dflt, rw)" by blast
  have ok: "dict_ok mcu dflt" using parse_data_str_dict_ok[OF d] .
  from Pins_init_tbl_inv[OF assms(1) d] have inv: "tbl_inv mcu dflt decls (self_pins P)" by simp
  have len: "length row = pins_per_port mcu" using inv assms(2) by (simp add: tbl_inv_def)
  have "\<forall>i<length row. num (row ! i) = int i"
  proof (intro allI impI)
    fix i assume i: "i < length row"
    then have "placed mcu dflt decls prt i (row ! i)" using inv assms(2) len by (simp add: tbl_inv_def)
    from placed_props[OF this ok] i len have "slot mcu (num (row ! i)) = i" by simp
    moreover have "0 \<le> num (row ! i)" using assms(3) i by simp
    ultimately show "num (row ! i) = int i" by (simp add: slot_def)
  qed
  then show ?thesis by (rule af_terms_by_index)
qed

text \<open>
  C9. The low expression is to hold one term for each pin with an index below 8 and the
  high expression one for each pin from index 8 on, in index order. The position test of
  the parser bounds the number from above only, so \<^verbatim>\<open>PA-1\<close> is taken as a position:
  Python's negative index writes the record to the last position of the row, and the
  record keeps the number \<open>-1\<close>. On a port of nine pins the pin at index 8 is then
  listed in the low expression, after the term of index 7, and the high expression has
  no term.
\<close>

theorem negative_number_moves_pin_to_afrl:
  "board_afrh ex_mcu9 ex_default [(''x'', ''PA-1'')] ''A'' =
     Inr (''#define VAL_GPIOA_AFRH                 ()'' @ [newline]) \<and>
   board_afrl ex_mcu9 ex_default [(''x'', ''PA-1'')] ''A'' =
     Inr (''#define VAL_GPIOA_AFRL                 ('' @
          join term_sep
            [''PIN_AFIO_AF(GPIOA_PIN0, 0U)'', ''PIN_AFIO_AF(GPIOA_PIN1, 0U)'',
             ''PIN_AFIO_AF(GPIOA_PIN2, 0U)'', ''PIN_AFIO_AF(GPIOA_PIN3, 0U)'',
             ''PIN_AFIO_AF(GPIOA_PIN4, 0U)'', ''PIN_AFIO_AF(GPIOA_PIN5, 0U)'',
             ''PIN_AFIO_AF(GPIOA_PIN6, 0U)'', ''PIN_AFIO_AF(GPIOA_PIN7, 0U)'',
             ''PIN_AFIO_AF(GPIOA_X, 0U)''] @
          '')'' @ [newline])"
  by code_simp

end
